theory Spec2Isabelle
  imports Main
begin

section \<open>Strings\<close>

text \<open>
  A Python \<open>str\<close> is modelled as a \<open>string\<close> whose characters are the code points
  below 256. \<open>str.strip()\<close> removes the characters for which \<open>str.isspace\<close> holds;
  below 256 these are 9-13, 28-32, 133 and 160.
\<close>

definition py_whitespace :: "char list" where
  "py_whitespace = [CHR 0x09, CHR 0x0A, CHR 0x0B, CHR 0x0C, CHR 0x0D,
                    CHR 0x1C, CHR 0x1D, CHR 0x1E, CHR 0x1F, CHR 0x20, CHR 0x85, CHR 0xA0]"

definition isspace :: "char \<Rightarrow> bool" where
  "isspace c = (c \<in> set py_whitespace)"

definition strip :: "string \<Rightarrow> string" where
  "strip s = rev (dropWhile isspace (rev (dropWhile isspace s)))"

text \<open>\<open>s.replace(c, '')\<close> for a one-character pattern \<open>c\<close>.\<close>

definition replace_empty :: "char \<Rightarrow> string \<Rightarrow> string" where
  "replace_empty c s = filter (\<lambda>x. x \<noteq> c) s"

text \<open>\<open>sub in s\<close> on strings: \<open>sub\<close> occurs in \<open>s\<close> as a contiguous block.\<close>

fun startswith :: "string \<Rightarrow> string \<Rightarrow> bool" where
  "startswith s [] = True"
| "startswith [] (p # ps) = False"
| "startswith (c # cs) (p # ps) = (c = p \<and> startswith cs ps)"

fun str_contains :: "string \<Rightarrow> string \<Rightarrow> bool" where
  "str_contains [] sub = (sub = [])"
| "str_contains (c # cs) sub = (startswith (c # cs) sub \<or> str_contains cs sub)"

text \<open>
  \<open>repr\<close> of a \<open>str\<close> and \<open>str\<close> of a list of \<open>str\<close>, which
  \<open>extract_remitter_data\<close> searches. The quote is the double quote when the string has
  a single quote and no double quote, the single quote otherwise; the quote and the
  backslash are escaped, tab, newline and carriage return are written \<open>\t\<close>, \<open>\n\<close>,
  \<open>\r\<close>, and the other non-printable code points (below 32, 127 to 160, 173) as
  \<open>\xNN\<close>.
\<close>

definition hex_digit :: "nat \<Rightarrow> char" where
  "hex_digit n = ''0123456789abcdef'' ! (n mod 16)"

definition repr_char :: "char \<Rightarrow> char \<Rightarrow> string" where
  "repr_char q c =
     (let n = (of_char c :: nat) in
      if c = q \<or> c = CHR 0x5C then [CHR 0x5C, c]
      else if c = CHR 0x09 then [CHR 0x5C, CHR ''t'']
      else if c = CHR 0x0A then [CHR 0x5C, CHR ''n'']
      else if c = CHR 0x0D then [CHR 0x5C, CHR ''r'']
      else if n < 32 \<or> (127 \<le> n \<and> n \<le> 160) \<or> n = 173
        then [CHR 0x5C, CHR ''x'', hex_digit (n div 16), hex_digit n]
      else [c])"

definition repr_str :: "string \<Rightarrow> string" where
  "repr_str s =
     (let q = (if CHR 0x27 \<in> set s \<and> CHR 0x22 \<notin> set s then CHR 0x22 else CHR 0x27)
      in [q] @ concat (map (repr_char q) s) @ [q])"

fun join_comma :: "string list \<Rightarrow> string" where
  "join_comma [] = []"
| "join_comma [x] = x"
| "join_comma (x # y # ys) = x @ '', '' @ join_comma (y # ys)"

definition str_of_list :: "string list \<Rightarrow> string" where
  "str_of_list xs = ''['' @ join_comma (map repr_str xs) @ '']''"

section \<open>Errors, indexing and numeric coercion\<close>

datatype row_error = ValueError | IndexError

text \<open>\<open>cells[i]\<close> with Python's negative indices; out of range raises \<open>IndexError\<close>.\<close>

definition getitem :: "'a list \<Rightarrow> int \<Rightarrow> row_error + 'a" where
  "getitem xs i =
     (if 0 \<le> i \<and> i < int (length xs) then Inr (xs ! nat i)
      else if i < 0 \<and> - i \<le> int (length xs) then Inr (xs ! nat (int (length xs) + i))
      else Inl IndexError)"

definition bind :: "row_error + 'a \<Rightarrow> ('a \<Rightarrow> row_error + 'b) \<Rightarrow> row_error + 'b" where
  "bind m f = (case m of Inl e \<Rightarrow> Inl e | Inr x \<Rightarrow> f x)"

text \<open>
  The builtin \<open>float\<close> is a parameter \<open>pf\<close> of every extractor: \<open>pf s = None\<close> when
  \<open>float(s)\<close> raises \<open>ValueError\<close>, \<open>Some v\<close> when it returns \<open>v\<close>. The type \<open>'f\<close>
  stands for Python's floats.
\<close>

definition to_float :: "(string \<Rightarrow> 'f option) \<Rightarrow> string \<Rightarrow> row_error + 'f" where
  "to_float pf s = (case pf s of None \<Rightarrow> Inl ValueError | Some v \<Rightarrow> Inr v)"

text \<open>\<open>float(cells[i].replace(',', ''))\<close>: the index is read first, then coerced.\<close>

definition cell_float :: "(string \<Rightarrow> 'f option) \<Rightarrow> string list \<Rightarrow> int \<Rightarrow> row_error + 'f" where
  "cell_float pf cells i =
     bind (getitem cells i) (\<lambda>s. to_float pf (replace_empty CHR '','' s))"

text \<open>
  A concrete coercion for the examples: on a nonempty string of ASCII digits it gives
  the number the string denotes, as \<open>float\<close> does (exactly, below \<open>2 ^ 53\<close>); it
  rejects every string with another character.
\<close>

fun index_of :: "'a \<Rightarrow> 'a list \<Rightarrow> nat option" where
  "index_of x [] = None"
| "index_of x (y # ys) = (if x = y then Some 0 else map_option Suc (index_of x ys))"

definition digit_value :: "char \<Rightarrow> nat option" where
  "digit_value c = index_of c ''0123456789''"

fun digits_value :: "int \<Rightarrow> string \<Rightarrow> int option" where
  "digits_value acc [] = Some acc"
| "digits_value acc (c # cs) =
     (case digit_value c of None \<Rightarrow> None | Some d \<Rightarrow> digits_value (10 * acc + int d) cs)"

definition float_of_digits :: "string \<Rightarrow> int option" where
  "float_of_digits s = (if s = [] then None else digits_value 0 s)"

section \<open>Values, dictionaries, documents\<close>

text \<open>
  The values the scraper builds and \<open>json\<close> stores. A \<open>dict\<close> is an association list
  in insertion order with one entry per key: \<open>d[k] = v\<close> replaces the value of an
  existing key in place and appends a new key.
\<close>

datatype 'f json =
    JNull
  | JBool bool
  | JInt int
  | JFloat 'f
  | JStr string
  | JList "'f json list"
  | JObj "(string \<times> 'f json) list"

type_synonym 'f dict = "(string \<times> 'f json) list"

fun setitem :: "'k \<Rightarrow> 'v \<Rightarrow> ('k \<times> 'v) list \<Rightarrow> ('k \<times> 'v) list" where
  "setitem k v [] = [(k, v)]"
| "setitem k v ((k', v') # d) = (if k' = k then (k, v) # d else (k', v') # setitem k v d)"

fun update :: "('k \<times> 'v) list \<Rightarrow> ('k \<times> 'v) list \<Rightarrow> ('k \<times> 'v) list" where
  "update d [] = d"
| "update d ((k, v) # other) = update (setitem k v d) other"

definition keys :: "('k \<times> 'v) list \<Rightarrow> 'k list" where
  "keys d = map fst d"

definition get :: "('k \<times> 'v) list \<Rightarrow> 'k \<Rightarrow> 'v option" where
  "get d k = map_of d k"

text \<open>
  A table of the parsed document, as the extractors observe it through the HTML
  library: the text of each \<open>th\<close> element (\<open>table.find_all('th')\<close>), for each \<open>tr\<close>
  element the text of each of its \<open>td\<close> elements (\<open>table.find_all('tr')\<close>,
  \<open>row.find_all('td')\<close>), and the whole text (\<open>table.get_text()\<close>). A document is the
  list \<open>soup.find_all('table')\<close>, in document order.
\<close>

record table =
  th_text :: "string list"
  tr_td_text :: "string list list"
  get_text :: string

type_synonym document = "table list"

section \<open>The extractors of scraper.py\<close>

subsection \<open>extract_apps_data\<close>

definition apps_record :: "(string \<Rightarrow> 'f option) \<Rightarrow> string list \<Rightarrow> row_error + 'f json" where
  "apps_record pf cells =
     bind (getitem cells 1) (\<lambda>c1.
     let app_name = strip (replace_empty CHR ''#'' c1) in
     bind (cell_float pf cells (- 2)) (\<lambda>volume.
     bind (cell_float pf cells (- 1)) (\<lambda>val.
     Inr (JObj [(''name'', JStr app_name), (''volume'', JFloat volume), (''value'', JFloat val)]))))"

text \<open>One pass of the row loop: the records it appends (none or one).\<close>

definition apps_row :: "(string \<Rightarrow> 'f option) \<Rightarrow> string list \<Rightarrow> 'f json list" where
  "apps_row pf row =
     (let cells = map strip row in
      if length cells \<ge> 3
      then (case apps_record pf cells of Inr r \<Rightarrow> [r] | Inl e \<Rightarrow> [])
      else [])"

fun apps_rows :: "(string \<Rightarrow> 'f option) \<Rightarrow> string list list \<Rightarrow> 'f json list" where
  "apps_rows pf [] = []"
| "apps_rows pf (row # rows) = apps_row pf row @ apps_rows pf rows"

definition apps_match :: "table \<Rightarrow> bool" where
  "apps_match t = (''Application Name'' \<in> set (map strip (th_text t)))"

fun apps_tables :: "(string \<Rightarrow> 'f option) \<Rightarrow> document \<Rightarrow> 'f json list" where
  "apps_tables pf [] = []"
| "apps_tables pf (t # ts) =
     (if apps_match t then apps_rows pf (take 10 (drop 1 (tr_td_text t)))
      else apps_tables pf ts)"

definition extract_apps_data :: "(string \<Rightarrow> 'f option) \<Rightarrow> document \<Rightarrow> 'f dict" where
  "extract_apps_data pf soup = [(''topApps'', JList (apps_tables pf soup))]"

subsection \<open>extract_remitter_data\<close>

definition remitter_record :: "(string \<Rightarrow> 'f option) \<Rightarrow> string list \<Rightarrow> row_error + 'f json" where
  "remitter_record pf cells =
     bind (getitem cells 1) (\<lambda>c1.
     let bank_name = strip c1 in
     bind (cell_float pf cells 2) (\<lambda>volume.
     Inr (JObj [(''name'', JStr bank_name), (''volume'', JFloat volume)])))"

definition remitter_row :: "(string \<Rightarrow> 'f option) \<Rightarrow> string list \<Rightarrow> 'f json list" where
  "remitter_row pf row =
     (let cells = map strip row in
      if length cells \<ge> 3
      then (case remitter_record pf cells of Inr r \<Rightarrow> [r] | Inl e \<Rightarrow> [])
      else [])"

fun remitter_rows :: "(string \<Rightarrow> 'f option) \<Rightarrow> string list list \<Rightarrow> 'f json list" where
  "remitter_rows pf [] = []"
| "remitter_rows pf (row # rows) = remitter_row pf row @ remitter_rows pf rows"

definition remitter_match :: "table \<Rightarrow> bool" where
  "remitter_match t =
     str_contains (str_of_list (map strip (th_text t))) ''UPI Remitter Members''"

fun remitter_tables :: "(string \<Rightarrow> 'f option) \<Rightarrow> document \<Rightarrow> 'f json list" where
  "remitter_tables pf [] = []"
| "remitter_tables pf (t # ts) =
     (if remitter_match t then remitter_rows pf (take 10 (drop 1 (tr_td_text t)))
      else remitter_tables pf ts)"

definition extract_remitter_data :: "(string \<Rightarrow> 'f option) \<Rightarrow> document \<Rightarrow> 'f dict" where
  "extract_remitter_data pf soup = [(''topBanks'', JList (remitter_tables pf soup))]"

subsection \<open>extract_beneficiary_data\<close>

definition extract_beneficiary_data :: "(string \<Rightarrow> 'f option) \<Rightarrow> document \<Rightarrow> 'f dict" where
  "extract_beneficiary_data pf soup = []"

subsection \<open>extract_merchant_data\<close>

definition merchant_record :: "(string \<Rightarrow> 'f option) \<Rightarrow> string list \<Rightarrow> row_error + 'f json" where
  "merchant_record pf cells =
     bind (getitem cells 2) (\<lambda>c2.
     let category = strip c2 in
     bind (cell_float pf cells 3) (\<lambda>volume.
     bind (if length cells > 4 then map_sum id JFloat (cell_float pf cells 4) else Inr (JInt 0))
       (\<lambda>val.
     Inr (JObj [(''category'', JStr category), (''volume'', JFloat volume), (''value'', val)]))))"

definition merchant_row :: "(string \<Rightarrow> 'f option) \<Rightarrow> string list \<Rightarrow> 'f json list" where
  "merchant_row pf row =
     (let cells = map strip row in
      if length cells \<ge> 4
      then (case merchant_record pf cells of Inr r \<Rightarrow> [r] | Inl e \<Rightarrow> [])
      else [])"

fun merchant_rows :: "(string \<Rightarrow> 'f option) \<Rightarrow> string list list \<Rightarrow> 'f json list" where
  "merchant_rows pf [] = []"
| "merchant_rows pf (row # rows) = merchant_row pf row @ merchant_rows pf rows"

definition merchant_match :: "table \<Rightarrow> bool" where
  "merchant_match t = str_contains (get_text t) ''Merchant Category-wise''"

fun merchant_tables :: "(string \<Rightarrow> 'f option) \<Rightarrow> document \<Rightarrow> 'f json list" where
  "merchant_tables pf [] = []"
| "merchant_tables pf (t # ts) =
     (if merchant_match t then merchant_rows pf (tr_td_text t)
      else merchant_tables pf ts)"

definition extract_merchant_data :: "(string \<Rightarrow> 'f option) \<Rightarrow> document \<Rightarrow> 'f dict" where
  "extract_merchant_data pf soup =
     [(''merchantCategories'', JList (take 10 (merchant_tables pf soup)))]"

subsection \<open>extract_state_data\<close>

definition state_record :: "(string \<Rightarrow> 'f option) \<Rightarrow> string list \<Rightarrow> row_error + 'f json" where
  "state_record pf cells =
     bind (getitem cells 1) (\<lambda>c1.
     let state = strip c1 in
     bind (cell_float pf cells 2) (\<lambda>volume.
     bind (cell_float pf cells 4) (\<lambda>val.
     Inr (JObj [(''state'', JStr state), (''volume'', JFloat volume), (''value'', JFloat val)]))))"

definition state_row :: "(string \<Rightarrow> 'f option) \<Rightarrow> string list \<Rightarrow> 'f json list" where
  "state_row pf row =
     (let cells = map strip row in
      if length cells \<ge> 5
      then (case state_record pf cells of Inr r \<Rightarrow> [r] | Inl e \<Rightarrow> [])
      else [])"

fun state_rows :: "(string \<Rightarrow> 'f option) \<Rightarrow> string list list \<Rightarrow> 'f json list" where
  "state_rows pf [] = []"
| "state_rows pf (row # rows) = state_row pf row @ state_rows pf rows"

definition state_match :: "table \<Rightarrow> bool" where
  "state_match t = str_contains (get_text t) ''State-wise UPI''"

fun state_tables :: "(string \<Rightarrow> 'f option) \<Rightarrow> document \<Rightarrow> 'f json list" where
  "state_tables pf [] = []"
| "state_tables pf (t # ts) =
     (if state_match t then state_rows pf (take 10 (drop 1 (tr_td_text t)))
      else state_tables pf ts)"

definition extract_state_data :: "(string \<Rightarrow> 'f option) \<Rightarrow> document \<Rightarrow> 'f dict" where
  "extract_state_data pf soup = [(''stateData'', JList (state_tables pf soup))]"

subsection \<open>extract_p2p_p2m_data\<close>

text \<open>
  The body of the \<open>try\<close> of one row: the cells are read and coerced in the source's
  order, so the first failing read decides the error.
\<close>

definition p2p_record :: "(string \<Rightarrow> 'f option) \<Rightarrow> string list \<Rightarrow> row_error + 'f dict" where
  "p2p_record pf cells =
     bind (getitem cells 0) (\<lambda>c0.
     let month = strip c0 in
     bind (cell_float pf cells 1) (\<lambda>total_volume.
     bind (cell_float pf cells 2) (\<lambda>total_value.
     bind (cell_float pf cells 3) (\<lambda>p2p_volume.
     bind (cell_float pf cells 4) (\<lambda>p2p_value.
     bind (cell_float pf cells 5) (\<lambda>p2m_volume.
     bind (cell_float pf cells 6) (\<lambda>p2m_value.
     Inr [(''month'', JStr month),
          (''totalVolume'', JFloat total_volume),
          (''totalValue'', JFloat total_value),
          (''p2pVolume'', JFloat p2p_volume),
          (''p2pValue'', JFloat p2p_value),
          (''p2mVolume'', JFloat p2m_volume),
          (''p2mValue'', JFloat p2m_value)])))))))"

text \<open>
  The row loop returns from the function at the first row whose \<open>try\<close> body succeeds
  (\<open>Some\<close>); a row with fewer than 6 cells, or whose body raises, is passed over.
\<close>

fun p2p_rows :: "(string \<Rightarrow> 'f option) \<Rightarrow> string list list \<Rightarrow> 'f dict option" where
  "p2p_rows pf [] = None"
| "p2p_rows pf (row # rows) =
     (let cells = map strip row in
      if length cells \<ge> 6
      then (case p2p_record pf cells of Inr r \<Rightarrow> Some r | Inl e \<Rightarrow> p2p_rows pf rows)
      else p2p_rows pf rows)"

definition p2p_match :: "table \<Rightarrow> bool" where
  "p2p_match t = str_contains (get_text t) ''UPI P2P and P2M Transactions''"

fun p2p_tables :: "(string \<Rightarrow> 'f option) \<Rightarrow> document \<Rightarrow> 'f dict option" where
  "p2p_tables pf [] = None"
| "p2p_tables pf (t # ts) =
     (if p2p_match t then p2p_rows pf (tr_td_text t) else p2p_tables pf ts)"

definition extract_p2p_p2m_data :: "(string \<Rightarrow> 'f option) \<Rightarrow> document \<Rightarrow> 'f dict" where
  "extract_p2p_p2m_data pf soup = (case p2p_tables pf soup of Some r \<Rightarrow> r | None \<Rightarrow> [])"

subsection \<open>parse_tables\<close>

text \<open>
  \<open>parse_tables\<close> on the parsed document: \<open>parsed_data\<close> starts empty and is updated
  with the result of each extractor in turn.
\<close>

definition parse_tables :: "(string \<Rightarrow> 'f option) \<Rightarrow> document \<Rightarrow> 'f dict" where
  "parse_tables pf soup =
     (let parsed_data = [];
          parsed_data = update parsed_data (extract_apps_data pf soup);
          parsed_data = update parsed_data (extract_remitter_data pf soup);
          parsed_data = update parsed_data (extract_beneficiary_data pf soup);
          parsed_data = update parsed_data (extract_merchant_data pf soup);
          parsed_data = update parsed_data (extract_state_data pf soup);
          parsed_data = update parsed_data (extract_p2p_p2m_data pf soup)
      in parsed_data)"

section \<open>The history merge of update_data.py\<close>

subsection \<open>Period keys: strptime and strftime with the format %b-%y\<close>

text \<open>
  \<open>datetime.strptime(x, "%b-%y")\<close> in the C locale accepts exactly an abbreviated
  month name, matched without regard to case, a hyphen and two decimal digits; the
  year is 2000 + yy up to 68 and 1900 + yy from 69. The result is the first day of
  that month, here the pair (year, month); \<open>None\<close> stands for the \<open>ValueError\<close>.
\<close>

definition month_abbr :: "string list" where
  "month_abbr = [''Jan'', ''Feb'', ''Mar'', ''Apr'', ''May'', ''Jun'',
                 ''Jul'', ''Aug'', ''Sep'', ''Oct'', ''Nov'', ''Dec'']"

definition lower_char :: "char \<Rightarrow> char" where
  "lower_char c =
     (case map_of (zip ''ABCDEFGHIJKLMNOPQRSTUVWXYZ'' ''abcdefghijklmnopqrstuvwxyz'') c of
        Some l \<Rightarrow> l | None \<Rightarrow> c)"

definition strptime :: "string \<Rightarrow> (nat \<times> nat) option" where
  "strptime x =
     (case x of
        [b1, b2, b3, h, y1, y2] \<Rightarrow>
          (if h = CHR ''-'' then
             (case index_of (map lower_char [b1, b2, b3]) (map (map lower_char) month_abbr) of
                None \<Rightarrow> None
              | Some i \<Rightarrow>
                  (case digit_value y1 of
                     None \<Rightarrow> None
                   | Some d1 \<Rightarrow>
                       (case digit_value y2 of
                          None \<Rightarrow> None
                        | Some d2 \<Rightarrow>
                            (let yy = 10 * d1 + d2
                             in Some (if yy \<le> 68 then 2000 + yy else 1900 + yy, Suc i)))))
           else None)
      | _ \<Rightarrow> None)"

text \<open>\<open>strftime("%b-%y")\<close> of a date in year \<open>y\<close> and month \<open>m\<close> (1 to 12).\<close>

definition digit_char :: "nat \<Rightarrow> char" where
  "digit_char n = ''0123456789'' ! (n mod 10)"

definition strftime :: "nat \<times> nat \<Rightarrow> string" where
  "strftime now =
     (case now of (y, m) \<Rightarrow>
        month_abbr ! (m - 1) @ ''-'' @ [digit_char (y mod 100 div 10), digit_char y])"

text \<open>Dates of first days of months compare as these numbers do.\<close>

definition ordinal :: "nat \<times> nat \<Rightarrow> nat" where
  "ordinal d = (case d of (y, m) \<Rightarrow> 12 * y + m)"

subsection \<open>process_and_update_dashboard\<close>

datatype run_error = Value_Error | Type_Error | Attribute_Error | Key_Error | OS_Error

text \<open>
  \<open>sorted(..., key=..., reverse=True)\<close> first computes the key of every element, in
  order, so the first key that does not parse raises; it then sorts stably, equal keys
  keeping their order, which for the reversed order is a stable sort by the negated key.
\<close>

fun sort_keys :: "string list \<Rightarrow> run_error + (string \<times> nat) list" where
  "sort_keys [] = Inr []"
| "sort_keys (x # xs) =
     (case strptime x of
        None \<Rightarrow> Inl Value_Error
      | Some d \<Rightarrow> (case sort_keys xs of Inl e \<Rightarrow> Inl e | Inr r \<Rightarrow> Inr ((x, ordinal d) # r)))"

definition sorted_reverse :: "string list \<Rightarrow> run_error + string list" where
  "sorted_reverse xs =
     (case sort_keys xs of
        Inl e \<Rightarrow> Inl e
      | Inr r \<Rightarrow> Inr (map fst (sort_key (\<lambda>p. - int (snd p)) r)))"

text \<open>The comprehension \<open>{month: historical_data[month] for month in ...}\<close>.\<close>

fun comprehension :: "'f dict \<Rightarrow> string list \<Rightarrow> 'f dict \<Rightarrow> run_error + 'f dict" where
  "comprehension d [] acc = Inr acc"
| "comprehension d (month # months) acc =
     (case get d month of
        None \<Rightarrow> Inl Key_Error
      | Some v \<Rightarrow> comprehension d months (setitem month v acc))"

definition keep_recent :: "'f dict \<Rightarrow> run_error + 'f dict" where
  "keep_recent historical_data =
     (case sorted_reverse (keys historical_data) of
        Inl e \<Rightarrow> Inl e
      | Inr sorted_months \<Rightarrow> comprehension historical_data (take 24 sorted_months) [])"

text \<open>
  The body of the \<open>try\<close> up to the call of \<open>save_historical_data\<close>, on the loaded
  \<open>latest_data\<close>, the loaded \<open>historical_data\<close> (a dict with string keys) and the date
  of the run. A \<open>latest_data\<close> that is no dict has no \<open>get\<close>. A \<open>month\<close> that is a
  list or a dict cannot be a key; another \<open>month\<close> that is no string becomes the last
  key and \<open>strptime\<close> rejects it, after the keys before it.
\<close>

definition merge_history :: "nat \<times> nat \<Rightarrow> 'f json \<Rightarrow> 'f dict \<Rightarrow> run_error + 'f dict" where
  "merge_history now latest_data historical_data =
     (case latest_data of
        JObj d \<Rightarrow>
          (case get d ''month'' of
             None \<Rightarrow> keep_recent (setitem (strftime now) latest_data historical_data)
           | Some (JStr current_month) \<Rightarrow>
               keep_recent (setitem current_month latest_data historical_data)
           | Some (JList _) \<Rightarrow> Inl Type_Error
           | Some (JObj _) \<Rightarrow> Inl Type_Error
           | Some _ \<Rightarrow>
               (case sort_keys (keys historical_data) of
                  Inl e \<Rightarrow> Inl e
                | Inr _ \<Rightarrow> Inl Type_Error))
      | _ \<Rightarrow> Inl Attribute_Error)"

text \<open>
  The run: \<open>loaded\<close> is the outcome of opening and parsing \<open>latest.json\<close>. The result is
  the returned flag and the store handed to \<open>save_historical_data\<close>, if it was called.
\<close>

definition process_and_update_dashboard ::
  "nat \<times> nat \<Rightarrow> run_error + 'f json \<Rightarrow> 'f dict \<Rightarrow> bool \<times> 'f dict option" where
  "process_and_update_dashboard now loaded historical_data =
     (case loaded of
        Inl e \<Rightarrow> (False, None)
      | Inr latest_data \<Rightarrow>
          (case merge_history now latest_data historical_data of
             Inl e \<Rightarrow> (False, None)
           | Inr recent_data \<Rightarrow> (True, Some recent_data)))"

section \<open>The Table Locator of the specification\<close>

text \<open>
  The specification's Table Locator: the first table, in document order, that
  satisfies the identifying predicate, or not found. The source has no such function;
  each extractor scans the tables itself and leaves the scan at the first match.
\<close>

fun locate :: "(table \<Rightarrow> bool) \<Rightarrow> document \<Rightarrow> table option" where
  "locate p [] = None"
| "locate p (t # ts) = (if p t then Some t else locate p ts)"

section \<open>Example documents\<close>

text \<open>
  A table with a caption, header cells and rows of data cells, and no other text: its
  whole text is the concatenation of these.
\<close>

definition plain_table :: "string \<Rightarrow> string list \<Rightarrow> string list list \<Rightarrow> table" where
  "plain_table caption ths rows =
     \<lparr>th_text = ths, tr_td_text = rows,
      get_text = caption @ concat ths @ concat (map concat rows)\<rparr>"

text \<open>
  A UPI Apps table of 12 rows: the header row (no data cell) and 11 data rows, of which
  the fourth has two cells only and the seventh has a value that is no number.
\<close>

definition apps_table :: table where
  "apps_table =
     plain_table ''UPI Apps''
        [''Sr. No.'', ''Application Name'', ''Volume (Mn)'', ''Value (Cr)'']
        [[],
         [''1'', ''PhonePe'', ''8,000'', ''1,200,000''],
         [''2'', ''Google Pay #'', ''6,000'', ''800,000''],
         [''3'', ''Paytm'', ''1,200'', ''130,000''],
         [''4'', ''Navi''],
         [''5'', ''super.money'', ''200'', ''9,000''],
         [''6'', ''Cred'', ''140'', ''50,000''],
         [''7'', ''FamApp'', ''130'', ''N/A''],
         [''8'', ''Axis Bank Apps'', ''110'', ''10,000''],
         [''9'', ''BHIM'', ''100'', ''14,000''],
         [''10'', ''Amazon Pay'', ''90'', ''8,000''],
         [''11'', ''WhatsApp'', ''80'', ''6,000'']]"

definition apps_fixture :: document where
  "apps_fixture = [apps_table]"

text \<open>
  A monthly-totals table: the header row, a row of 6 cells, a row of 7 cells whose
  second cell is no number, and a row of 7 cells that all coerce.
\<close>

definition p2p_table :: table where
  "p2p_table =
     plain_table ''UPI P2P and P2M Transactions''
        [''Month'', ''Total Vol'', ''Total Val'', ''P2P Vol'', ''P2P Val'', ''P2M Vol'', ''P2M Val'']
        [[],
         [''Dec-23'', ''12'', ''18'', ''5'', ''13'', ''7''],
         [''Jan-24'', ''n.a.'', ''18'', ''5'', ''13'', ''7'', ''5''],
         [''Feb-24'', ''12'', ''18'', ''5'', ''13'', ''7'', ''5'']]"

definition p2p_fixture :: document where
  "p2p_fixture = [p2p_table]"

text \<open>A State-wise table with one data row, and the document that has only this table.\<close>

definition state_table :: table where
  "state_table =
     plain_table ''State-wise UPI''
        [''Sr'', ''State'', ''Volume'', ''Share'', ''Value'']
        [[], [''1'', '' Maharashtra '', ''1,500'', ''9'', ''210,000'']]"

definition state_fixture :: document where
  "state_fixture = [state_table]"

text \<open>A second table with the header of the UPI Apps table.\<close>

definition other_apps_table :: table where
  "other_apps_table =
     plain_table ''More apps'' [''Sr. No.'', ''Application Name'', ''Volume'', ''Value'']
       [[], [''1'', ''Another app'', ''3'', ''4'']]"

text \<open>
  Fifteen rows of five cells with numbers in the third, fourth and fifth cell, which
  every sequence extractor reads as a record, and a row of five cells with no number.
\<close>

definition valid_rows :: "string list list" where
  "valid_rows =
       [[''1'', ''Row 1'', ''1,900'', ''39'', ''285,000''],
        [''2'', ''Row 2'', ''1,800'', ''38'', ''270,000''],
        [''3'', ''Row 3'', ''1,700'', ''37'', ''255,000''],
        [''4'', ''Row 4'', ''1,600'', ''36'', ''240,000''],
        [''5'', ''Row 5'', ''1,500'', ''35'', ''225,000''],
        [''6'', ''Row 6'', ''1,400'', ''34'', ''210,000''],
        [''7'', ''Row 7'', ''1,300'', ''33'', ''195,000''],
        [''8'', ''Row 8'', ''1,200'', ''32'', ''180,000''],
        [''9'', ''Row 9'', ''1,100'', ''31'', ''165,000''],
        [''10'', ''Row 10'', ''1,000'', ''30'', ''150,000''],
        [''11'', ''Row 11'', ''900'', ''29'', ''135,000''],
        [''12'', ''Row 12'', ''800'', ''28'', ''120,000''],
        [''13'', ''Row 13'', ''700'', ''27'', ''105,000''],
        [''14'', ''Row 14'', ''600'', ''26'', ''90,000''],
        [''15'', ''Row 15'', ''500'', ''25'', ''75,000'']]"

definition bad_row :: "string list" where
  "bad_row = [''16'', ''Row 16'', ''n/a'', ''n/a'', ''n/a'']"


definition apps_table_bad :: table where
  "apps_table_bad =
     plain_table ''UPI Apps'' [''Sr. No.'', ''Application Name'', ''Volume'', ''Share'', ''Value'']
       ([] # take 3 valid_rows @ bad_row # drop 3 valid_rows)"




text \<open>
  A store of 24 periods, January 2023 to December 2024, each holding an empty
  snapshot, and a snapshot of January 2025.
\<close>

definition store_fixture :: "int dict" where
  "store_fixture =
     map (\<lambda>k. (k, JObj []))
       [''Jan-23'', ''Feb-23'', ''Mar-23'', ''Apr-23'', ''May-23'', ''Jun-23'',
        ''Jul-23'', ''Aug-23'', ''Sep-23'', ''Oct-23'', ''Nov-23'', ''Dec-23'',
        ''Jan-24'', ''Feb-24'', ''Mar-24'', ''Apr-24'', ''May-24'', ''Jun-24'',
        ''Jul-24'', ''Aug-24'', ''Sep-24'', ''Oct-24'', ''Nov-24'', ''Dec-24'']"

definition snapshot_fixture :: "int json" where
  "snapshot_fixture = JObj [(''topApps'', JList []), (''month'', JStr ''Jan-25'')]"

section \<open>Names used in the statements\<close>

text \<open>The fields of the monthly-totals record, in the order the source writes them.\<close>

definition monthly_fields :: "string list" where
  "monthly_fields = [''month'', ''totalVolume'', ''totalValue'', ''p2pVolume'',
                     ''p2pValue'', ''p2mVolume'', ''p2mValue'']"

text \<open>A well-formed record of the UPI Apps dataset: name, volume and value.\<close>

fun is_app_record :: "'f json \<Rightarrow> bool" where
  "is_app_record (JObj [(k1, JStr n), (k2, JFloat v), (k3, JFloat w)]) =
     (k1 = ''name'' \<and> k2 = ''volume'' \<and> k3 = ''value'')"
| "is_app_record _ = False"

text \<open>A row of the UPI Apps table is malformed when the row loop appends nothing for it.\<close>

definition malformed :: "(string \<Rightarrow> 'f option) \<Rightarrow> string list \<Rightarrow> bool" where
  "malformed pf row = (apps_row pf row = [])"

text \<open>
  A row the monthly-totals loop can read: at least 7 cells, of which the second to the
  seventh, stripped and without commas, are accepted by \<open>float\<close>.
\<close>

definition coerces :: "(string \<Rightarrow> 'f option) \<Rightarrow> string list \<Rightarrow> nat \<Rightarrow> bool" where
  "coerces pf row i = (pf (replace_empty CHR '','' (strip (row ! i))) \<noteq> None)"

definition readable :: "(string \<Rightarrow> 'f option) \<Rightarrow> string list \<Rightarrow> bool" where
  "readable pf row = (7 \<le> length row \<and> list_all (coerces pf row) [1, 2, 3, 4, 5, 6])"

text \<open>
  A period key parses when \<open>strptime\<close> accepts it; its chronological value is the
  number of its month (0 for a key that does not parse).
\<close>

definition parses :: "string \<Rightarrow> bool" where
  "parses x = (strptime x \<noteq> None)"

definition date_of :: "string \<Rightarrow> nat" where
  "date_of x = (case strptime x of None \<Rightarrow> 0 | Some d \<Rightarrow> ordinal d)"

section \<open>Dictionaries\<close>

lemma get_setitem: "get (setitem k v d) k' = (if k' = k then Some v else get d k')"
  by (induction d) (auto simp: get_def)

lemma keys_setitem:
  "keys (setitem k v d) = (if k \<in> set (keys d) then keys d else keys d @ [k])"
  by (induction d) (auto simp: keys_def split: if_splits)

lemma setitem_fresh: "k \<notin> set (keys d) \<Longrightarrow> setitem k v d = d @ [(k, v)]"
  by (induction d) (auto simp: keys_def)

lemma update_fresh:
  "distinct (keys other) \<Longrightarrow> set (keys other) \<inter> set (keys d) = {} \<Longrightarrow> update d other = d @ other"
proof (induction other arbitrary: d)
  case Nil
  then show ?case by simp
next
  case (Cons p other)
  obtain k v where p: "p = (k, v)" by (cases p)
  from Cons.prems have fresh: "k \<notin> set (keys d)" and dist: "distinct (keys other)"
    and k: "k \<notin> set (keys other)" and disj: "set (keys other) \<inter> set (keys d) = {}"
    by (auto simp: p keys_def)
  have "set (keys other) \<inter> set (keys (d @ [(k, v)])) = {}"
    using k disj by (auto simp: keys_def)
  with Cons.IH [of "d @ [(k, v)]"] dist fresh show ?case
    by (simp add: p setitem_fresh)
qed

section \<open>The merged output is the extractors' outputs, one after the other\<close>

lemma p2p_record_keys: "p2p_record pf cells = Inr r \<Longrightarrow> keys r = monthly_fields"
  by (auto simp: p2p_record_def bind_def keys_def Let_def monthly_fields_def split: sum.splits)

lemma p2p_rows_keys: "p2p_rows pf rows = Some r \<Longrightarrow> keys r = monthly_fields"
  by (induction rows) (auto simp: Let_def p2p_record_keys split: if_splits sum.splits)

lemma p2p_tables_keys: "p2p_tables pf soup = Some r \<Longrightarrow> keys r = monthly_fields"
  by (induction soup) (auto simp: p2p_rows_keys split: if_splits)

lemma extract_p2p_keys:
  "keys (extract_p2p_p2m_data pf soup) =
     (case p2p_tables pf soup of None \<Rightarrow> [] | Some r \<Rightarrow> monthly_fields)"
  by (auto simp: extract_p2p_p2m_data_def p2p_tables_keys split: option.splits)
     (simp add: keys_def)

lemma parse_tables_append:
  "parse_tables pf soup =
     extract_apps_data pf soup @ extract_remitter_data pf soup @ extract_merchant_data pf soup
       @ extract_state_data pf soup @ extract_p2p_p2m_data pf soup"
proof -
  let ?four = "extract_apps_data pf soup @ extract_remitter_data pf soup
                 @ extract_merchant_data pf soup @ extract_state_data pf soup"
  have four: "update (update (update (update (update [] (extract_apps_data pf soup))
                 (extract_remitter_data pf soup)) (extract_beneficiary_data pf soup))
                 (extract_merchant_data pf soup)) (extract_state_data pf soup) = ?four"
    by (simp add: extract_apps_data_def extract_remitter_data_def extract_beneficiary_data_def
        extract_merchant_data_def extract_state_data_def)
  have "update ?four (extract_p2p_p2m_data pf soup) = ?four @ extract_p2p_p2m_data pf soup"
  proof (rule update_fresh)
    show "distinct (keys (extract_p2p_p2m_data pf soup))"
      by (simp add: extract_p2p_keys monthly_fields_def split: option.splits)
    have "set (keys (extract_p2p_p2m_data pf soup)) \<subseteq> set monthly_fields"
      by (cases "p2p_tables pf soup") (simp_all add: extract_p2p_keys)
    moreover have "set monthly_fields \<inter> set (keys ?four) = {}"
      by (simp add: monthly_fields_def keys_def extract_apps_data_def
          extract_remitter_data_def extract_merchant_data_def extract_state_data_def)
    ultimately show "set (keys (extract_p2p_p2m_data pf soup)) \<inter> set (keys ?four) = {}"
      by blast
  qed
  then show ?thesis
    unfolding parse_tables_def Let_def four by simp
qed


section \<open>C1: the keys of the merged snapshot\<close>

text \<open>
  C1, as stated, fails: for the document with no table, \<open>parse_tables\<close> returns the
  four sequence keys only; the monthly-totals fields \<open>month\<close>, \<open>totalVolume\<close>, ... are
  not keys of the output.
\<close>

theorem snapshot_keys_counterexample:
  "keys (parse_tables float_of_digits []) =
     [''topApps'', ''topBanks'', ''merchantCategories'', ''stateData''] \<and>
   get (parse_tables float_of_digits []) ''month'' = None \<and>
   get (parse_tables float_of_digits []) ''totalVolume'' = None"
  by (simp add: parse_tables_def extract_apps_data_def extract_remitter_data_def
      extract_beneficiary_data_def extract_merchant_data_def extract_state_data_def
      extract_p2p_p2m_data_def keys_def get_def)

text \<open>
  C1, amended: for every document, also one with no table, the output of
  \<open>parse_tables\<close> is the four entries \<open>topApps\<close>, \<open>topBanks\<close>, \<open>merchantCategories\<close>,
  \<open>stateData\<close>, each a sequence (empty when its extraction finds nothing), followed
  by the output of the monthly-totals extractor: its seven fields when it finds a row
  it can read, and no field at all otherwise. No extractor's outcome changes or
  removes another extractor's entry.
\<close>

theorem snapshot_keys:
  "parse_tables pf soup =
     [(''topApps'', JList (apps_tables pf soup)),
      (''topBanks'', JList (remitter_tables pf soup)),
      (''merchantCategories'', JList (take 10 (merchant_tables pf soup))),
      (''stateData'', JList (state_tables pf soup))] @ extract_p2p_p2m_data pf soup \<and>
   keys (parse_tables pf soup) =
     [''topApps'', ''topBanks'', ''merchantCategories'', ''stateData'']
       @ (case p2p_tables pf soup of None \<Rightarrow> [] | Some r \<Rightarrow> monthly_fields) \<and>
   extract_p2p_p2m_data pf soup = (case p2p_tables pf soup of None \<Rightarrow> [] | Some r \<Rightarrow> r)"
proof -
  have a: "parse_tables pf soup =
     [(''topApps'', JList (apps_tables pf soup)),
      (''topBanks'', JList (remitter_tables pf soup)),
      (''merchantCategories'', JList (take 10 (merchant_tables pf soup))),
      (''stateData'', JList (state_tables pf soup))] @ extract_p2p_p2m_data pf soup"
    by (simp add: parse_tables_append extract_apps_data_def extract_remitter_data_def
        extract_merchant_data_def extract_state_data_def)
  have b: "keys (xs @ ys) = keys xs @ keys ys" for xs ys :: "(string \<times> 'a json) list"
    by (simp add: keys_def)
  have c: "keys (parse_tables pf soup) =
     [''topApps'', ''topBanks'', ''merchantCategories'', ''stateData'']
       @ (case p2p_tables pf soup of None \<Rightarrow> [] | Some r \<Rightarrow> monthly_fields)"
    unfolding a b extract_p2p_keys by (simp add: keys_def)
  have d: "extract_p2p_p2m_data pf soup = (case p2p_tables pf soup of None \<Rightarrow> [] | Some r \<Rightarrow> r)"
    by (simp add: extract_p2p_p2m_data_def split: option.splits)
  from a c d show ?thesis by blast
qed


section \<open>C6: a dataset whose table is missing\<close>

lemma apps_tables_none: "list_all (\<lambda>t. \<not> apps_match t) soup \<Longrightarrow> apps_tables pf soup = []"
  by (induction soup) auto

lemma remitter_tables_none:
  "list_all (\<lambda>t. \<not> remitter_match t) soup \<Longrightarrow> remitter_tables pf soup = []"
  by (induction soup) auto

lemma merchant_tables_none:
  "list_all (\<lambda>t. \<not> merchant_match t) soup \<Longrightarrow> merchant_tables pf soup = []"
  by (induction soup) auto

lemma state_tables_none:
  "list_all (\<lambda>t. \<not> state_match t) soup \<Longrightarrow> state_tables pf soup = []"
  by (induction soup) auto

lemma p2p_tables_none:
  "list_all (\<lambda>t. \<not> p2p_match t) soup \<Longrightarrow> p2p_tables pf soup = None"
  by (induction soup) auto

lemma get_append:
  "get (xs @ ys) k = (case get xs k of Some v \<Rightarrow> Some v | None \<Rightarrow> get ys k)"
  by (simp add: get_def map_add_def split: option.splits)

text \<open>
  C6: when no table of the document satisfies an extractor's identifying predicate,
  that extractor returns its empty result (the empty sequence under its key; the
  empty mapping for the monthly totals) and raises nothing. The output of
  \<open>parse_tables\<close> is the outputs of the extractors, each as it is when run alone, one
  after the other, so every key of the merged output holds what its own extractor
  returns, whatever the other extractors find.
\<close>

theorem missing_table:
  "(list_all (\<lambda>t. \<not> apps_match t) soup \<longrightarrow>
      extract_apps_data pf soup = [(''topApps'', JList [])]) \<and>
   (list_all (\<lambda>t. \<not> remitter_match t) soup \<longrightarrow>
      extract_remitter_data pf soup = [(''topBanks'', JList [])]) \<and>
   (list_all (\<lambda>t. \<not> merchant_match t) soup \<longrightarrow>
      extract_merchant_data pf soup = [(''merchantCategories'', JList [])]) \<and>
   (list_all (\<lambda>t. \<not> state_match t) soup \<longrightarrow>
      extract_state_data pf soup = [(''stateData'', JList [])]) \<and>
   (list_all (\<lambda>t. \<not> p2p_match t) soup \<longrightarrow> extract_p2p_p2m_data pf soup = []) \<and>
   parse_tables pf soup =
     extract_apps_data pf soup @ extract_remitter_data pf soup @ extract_merchant_data pf soup
       @ extract_state_data pf soup @ extract_p2p_p2m_data pf soup \<and>
   get (parse_tables pf soup) ''topApps'' = get (extract_apps_data pf soup) ''topApps'' \<and>
   get (parse_tables pf soup) ''topBanks'' = get (extract_remitter_data pf soup) ''topBanks'' \<and>
   get (parse_tables pf soup) ''merchantCategories''
     = get (extract_merchant_data pf soup) ''merchantCategories'' \<and>
   get (parse_tables pf soup) ''stateData'' = get (extract_state_data pf soup) ''stateData'' \<and>
   list_all (\<lambda>k. get (parse_tables pf soup) k = get (extract_p2p_p2m_data pf soup) k)
     monthly_fields"
proof -
  have e: "get (parse_tables pf soup) ''topApps'' = get (extract_apps_data pf soup) ''topApps''"
    "get (parse_tables pf soup) ''topBanks'' = get (extract_remitter_data pf soup) ''topBanks''"
    "get (parse_tables pf soup) ''merchantCategories''
       = get (extract_merchant_data pf soup) ''merchantCategories''"
    "get (parse_tables pf soup) ''stateData'' = get (extract_state_data pf soup) ''stateData''"
    by (simp_all add: parse_tables_append get_append extract_apps_data_def
        extract_remitter_data_def extract_merchant_data_def extract_state_data_def)
       (simp_all add: get_def)
  have m: "list_all (\<lambda>k. get (parse_tables pf soup) k = get (extract_p2p_p2m_data pf soup) k)
     monthly_fields"
    by (simp add: parse_tables_append get_append extract_apps_data_def
        extract_remitter_data_def extract_merchant_data_def extract_state_data_def
        monthly_fields_def)
       (simp add: get_def)
  show ?thesis
    using e m parse_tables_append [of pf soup]
    by (simp add: extract_apps_data_def extract_remitter_data_def extract_merchant_data_def
        extract_state_data_def extract_p2p_p2m_data_def apps_tables_none remitter_tables_none
        merchant_tables_none state_tables_none p2p_tables_none)
qed

text \<open>
  The document with only a State-wise table has no table for the other four
  extractors, and the document with only a monthly-totals table has none for the
  State-wise extractor.
\<close>

lemma state_fixture_matches:
  "list_all (\<lambda>t. \<not> apps_match t) state_fixture"
  "list_all (\<lambda>t. \<not> remitter_match t) state_fixture"
  "list_all (\<lambda>t. \<not> merchant_match t) state_fixture"
  "list_all (\<lambda>t. \<not> p2p_match t) state_fixture"
  "list_all (\<lambda>t. \<not> state_match t) p2p_fixture"
  by (simp_all add: state_fixture_def p2p_fixture_def state_table_def p2p_table_def plain_table_def apps_match_def
      remitter_match_def merchant_match_def p2p_match_def state_match_def strip_def isspace_def
      py_whitespace_def str_of_list_def repr_str_def repr_char_def Let_def)

theorem missing_table_witness:
  "list_all (\<lambda>t. \<not> apps_match t) state_fixture \<and>
   list_all (\<lambda>t. \<not> remitter_match t) state_fixture \<and>
   list_all (\<lambda>t. \<not> merchant_match t) state_fixture \<and>
   list_all (\<lambda>t. \<not> p2p_match t) state_fixture \<and>
   list_all (\<lambda>t. \<not> state_match t) p2p_fixture \<and>
   extract_apps_data float_of_digits state_fixture = [(''topApps'', JList [])] \<and>
   extract_remitter_data float_of_digits state_fixture = [(''topBanks'', JList [])] \<and>
   extract_merchant_data float_of_digits state_fixture = [(''merchantCategories'', JList [])] \<and>
   extract_p2p_p2m_data float_of_digits state_fixture = [] \<and>
   extract_state_data float_of_digits p2p_fixture = [(''stateData'', JList [])] \<and>
   get (parse_tables float_of_digits state_fixture) ''stateData''
     = get (extract_state_data float_of_digits state_fixture) ''stateData''"
  using missing_table [of state_fixture float_of_digits]
    missing_table [of p2p_fixture float_of_digits] state_fixture_matches
  by blast

section \<open>C8: the first matching table is the one extracted\<close>

text \<open>
  Each extractor's scan of the tables is the specification's locator with the
  extractor's predicate, followed by the extraction from the table it returns.
\<close>

lemma apps_tables_locate:
  "apps_tables pf soup =
     (case locate apps_match soup of None \<Rightarrow> []
      | Some t \<Rightarrow> apps_rows pf (take 10 (drop 1 (tr_td_text t))))"
  by (induction soup) auto

lemma remitter_tables_locate:
  "remitter_tables pf soup =
     (case locate remitter_match soup of None \<Rightarrow> []
      | Some t \<Rightarrow> remitter_rows pf (take 10 (drop 1 (tr_td_text t))))"
  by (induction soup) auto

lemma merchant_tables_locate:
  "merchant_tables pf soup =
     (case locate merchant_match soup of None \<Rightarrow> []
      | Some t \<Rightarrow> merchant_rows pf (tr_td_text t))"
  by (induction soup) auto

lemma state_tables_locate:
  "state_tables pf soup =
     (case locate state_match soup of None \<Rightarrow> []
      | Some t \<Rightarrow> state_rows pf (take 10 (drop 1 (tr_td_text t))))"
  by (induction soup) auto

lemma p2p_tables_locate:
  "p2p_tables pf soup =
     (case locate p2p_match soup of None \<Rightarrow> None
      | Some t \<Rightarrow> p2p_rows pf (tr_td_text t))"
  by (induction soup) auto

lemma locate_first:
  "list_all (\<lambda>t. \<not> p t) before \<Longrightarrow> p B \<Longrightarrow> locate p (before @ B # rest) = Some B"
  by (induction before) auto

lemma locate_none: "list_all (\<lambda>t. \<not> p t) soup \<Longrightarrow> locate p soup = None"
  by (induction soup) auto

text \<open>
  C8: for tables \<open>[A, B, C]\<close> in document order where \<open>A\<close> does not match and \<open>B\<close>
  matches, the locator selects \<open>B\<close>, whatever \<open>C\<close> is; more generally it selects the
  first match after any number of tables that do not match, and it returns not found
  when no table matches. Every extractor's scan selects its table this way, so what
  it extracts does not depend on the tables after the first match.
\<close>

theorem first_match_wins:
  "(\<not> p A \<and> p B \<longrightarrow> locate p [A, B, C] = Some B) \<and>
   (list_all (\<lambda>t. \<not> p t) before \<and> p B \<longrightarrow> locate p (before @ B # rest) = Some B) \<and>
   (list_all (\<lambda>t. \<not> p t) soup \<longrightarrow> locate p soup = None) \<and>
   apps_tables pf soup =
     (case locate apps_match soup of None \<Rightarrow> []
      | Some t \<Rightarrow> apps_rows pf (take 10 (drop 1 (tr_td_text t)))) \<and>
   remitter_tables pf soup =
     (case locate remitter_match soup of None \<Rightarrow> []
      | Some t \<Rightarrow> remitter_rows pf (take 10 (drop 1 (tr_td_text t)))) \<and>
   merchant_tables pf soup =
     (case locate merchant_match soup of None \<Rightarrow> []
      | Some t \<Rightarrow> merchant_rows pf (tr_td_text t)) \<and>
   state_tables pf soup =
     (case locate state_match soup of None \<Rightarrow> []
      | Some t \<Rightarrow> state_rows pf (take 10 (drop 1 (tr_td_text t)))) \<and>
   p2p_tables pf soup =
     (case locate p2p_match soup of None \<Rightarrow> None
      | Some t \<Rightarrow> p2p_rows pf (tr_td_text t)) \<and>
   (\<not> apps_match A \<and> apps_match B \<longrightarrow>
      extract_apps_data pf [A, B, C] = extract_apps_data pf [B])"
proof -
  have abc: "locate p [A, B, C] = Some B" if "\<not> p A" "p B"
    using that by simp
  have apps: "extract_apps_data pf [A, B, C] = extract_apps_data pf [B]"
    if "\<not> apps_match A" "apps_match B"
    using that by (simp add: extract_apps_data_def)
  show ?thesis
    using abc apps locate_first [of p before B rest] locate_none [of p soup]
      apps_tables_locate [of pf soup] remitter_tables_locate [of pf soup]
      merchant_tables_locate [of pf soup] state_tables_locate [of pf soup]
      p2p_tables_locate [of pf soup]
    by blast
qed

lemma locator_fixture_matches:
  "\<not> apps_match state_table" "apps_match apps_table" "apps_match other_apps_table"
  by (simp_all add: state_table_def apps_table_def other_apps_table_def plain_table_def
      apps_match_def strip_def isspace_def py_whitespace_def)

theorem first_match_wins_witness:
  "\<not> apps_match state_table \<and> apps_match apps_table \<and> apps_match other_apps_table \<and>
   locate apps_match [state_table, apps_table, other_apps_table] = Some apps_table \<and>
   list_all (\<lambda>t. \<not> apps_match t) [state_table] \<and>
   locate apps_match [state_table] = None \<and>
   extract_apps_data float_of_digits [state_table, apps_table, other_apps_table]
     = extract_apps_data float_of_digits [apps_table]"
proof -
  have none: "list_all (\<lambda>t. \<not> apps_match t) [state_table]"
    by (simp add: locator_fixture_matches)
  show ?thesis
    using none locator_fixture_matches
      first_match_wins [where p = apps_match and A = state_table and B = apps_table
        and C = other_apps_table and soup = "[state_table]" and pf = float_of_digits]
    by blast
qed

section \<open>C7: a row whose number does not coerce\<close>

text \<open>The row loops treat every row on its own.\<close>

lemma apps_rows_append: "apps_rows pf (xs @ ys) = apps_rows pf xs @ apps_rows pf ys"
  by (induction xs) auto

lemma remitter_rows_append:
  "remitter_rows pf (xs @ ys) = remitter_rows pf xs @ remitter_rows pf ys"
  by (induction xs) auto

lemma merchant_rows_append:
  "merchant_rows pf (xs @ ys) = merchant_rows pf xs @ merchant_rows pf ys"
  by (induction xs) auto

lemma state_rows_append: "state_rows pf (xs @ ys) = state_rows pf xs @ state_rows pf ys"
  by (induction xs) auto

lemma p2p_rows_append:
  "p2p_rows pf (xs @ ys) = (case p2p_rows pf xs of Some r \<Rightarrow> Some r | None \<Rightarrow> p2p_rows pf ys)"
  by (induction xs) (auto simp: Let_def split: sum.splits)

text \<open>A row with a required numeric cell that \<open>float\<close> rejects appends nothing.\<close>

lemma apps_row_bad:
  "cell_float pf (map strip bad) (- 2) = Inl ValueError \<or>
   cell_float pf (map strip bad) (- 1) = Inl ValueError \<Longrightarrow> apps_row pf bad = []"
  by (auto simp: apps_row_def apps_record_def bind_def Let_def split: sum.splits)

lemma remitter_row_bad:
  "cell_float pf (map strip bad) 2 = Inl ValueError \<Longrightarrow> remitter_row pf bad = []"
  by (auto simp: remitter_row_def remitter_record_def bind_def Let_def split: sum.splits)

lemma merchant_row_bad:
  "cell_float pf (map strip bad) 3 = Inl ValueError \<or>
   (length bad > 4 \<and> cell_float pf (map strip bad) 4 = Inl ValueError)
   \<Longrightarrow> merchant_row pf bad = []"
  by (auto simp: merchant_row_def merchant_record_def bind_def Let_def split: sum.splits)

lemma state_row_bad:
  "cell_float pf (map strip bad) 2 = Inl ValueError \<or>
   cell_float pf (map strip bad) 4 = Inl ValueError \<Longrightarrow> state_row pf bad = []"
  by (auto simp: state_row_def state_record_def bind_def Let_def split: sum.splits)

lemma p2p_record_bad:
  "list_ex (\<lambda>i. cell_float pf cells i = Inl ValueError) [1, 2, 3, 4, 5, 6]
   \<Longrightarrow> \<exists>e. p2p_record pf cells = Inl e"
  by (auto simp: p2p_record_def bind_def Let_def split: sum.splits)

lemma p2p_rows_bad:
  assumes "list_ex (\<lambda>i. cell_float pf (map strip bad) i = Inl ValueError) [1, 2, 3, 4, 5, 6]"
  shows "p2p_rows pf (bad # rows) = p2p_rows pf rows"
proof -
  from p2p_record_bad [OF assms] obtain e where "p2p_record pf (map strip bad) = Inl e" ..
  then show ?thesis by (simp add: Let_def)
qed

text \<open>
  C7: in every row loop, a row whose required numeric cell does not coerce to a number
  (\<open>float\<close> raises \<open>ValueError\<close> on it) appends no record at all, and the rows before
  and after it give exactly the records they give without it. For the UPI Apps table
  located in a document, with the row among the first ten data rows, the result is
  the records of the rows before it followed by those of the rows after it, up to
  the tenth data row. In the monthly-totals loop such a row is passed over and the
  search goes on with the next row.
\<close>

theorem bad_row_dropped:
  "(cell_float pf (map strip bad) (- 2) = Inl ValueError \<or>
    cell_float pf (map strip bad) (- 1) = Inl ValueError \<longrightarrow>
      apps_row pf bad = [] \<and>
      apps_rows pf (before @ bad # after) = apps_rows pf before @ apps_rows pf after \<and>
      (locate apps_match soup = Some t \<and> tr_td_text t = header # before @ bad # after \<and>
       length before < 10 \<longrightarrow>
         apps_tables pf soup
           = apps_rows pf before @ apps_rows pf (take (9 - length before) after))) \<and>
   (cell_float pf (map strip bad) 2 = Inl ValueError \<longrightarrow>
      remitter_row pf bad = [] \<and>
      remitter_rows pf (before @ bad # after)
        = remitter_rows pf before @ remitter_rows pf after) \<and>
   (cell_float pf (map strip bad) 3 = Inl ValueError \<or>
    (length bad > 4 \<and> cell_float pf (map strip bad) 4 = Inl ValueError) \<longrightarrow>
      merchant_row pf bad = [] \<and>
      merchant_rows pf (before @ bad # after)
        = merchant_rows pf before @ merchant_rows pf after) \<and>
   (cell_float pf (map strip bad) 2 = Inl ValueError \<or>
    cell_float pf (map strip bad) 4 = Inl ValueError \<longrightarrow>
      state_row pf bad = [] \<and>
      state_rows pf (before @ bad # after) = state_rows pf before @ state_rows pf after) \<and>
   (list_ex (\<lambda>i. cell_float pf (map strip bad) i = Inl ValueError) [1, 2, 3, 4, 5, 6] \<longrightarrow>
      p2p_rows pf (before @ bad # after)
        = (case p2p_rows pf before of Some r \<Rightarrow> Some r | None \<Rightarrow> p2p_rows pf after))"
proof -
  have apps: "apps_tables pf soup
           = apps_rows pf before @ apps_rows pf (take (9 - length before) after)"
    if bad: "apps_row pf bad = []" and t: "locate apps_match soup = Some t"
      and rows: "tr_td_text t = header # before @ bad # after" and len: "length before < 10"
  proof -
    from len have "10 - length before = Suc (9 - length before)" by simp
    then have "take 10 (before @ bad # after) = before @ bad # take (9 - length before) after"
      using len by simp
    then show ?thesis
      by (simp add: apps_tables_locate t rows apps_rows_append bad)
  qed
  have p2p: "p2p_rows pf (before @ bad # after)
        = (case p2p_rows pf before of Some r \<Rightarrow> Some r | None \<Rightarrow> p2p_rows pf after)"
    if "list_ex (\<lambda>i. cell_float pf (map strip bad) i = Inl ValueError) [1, 2, 3, 4, 5, 6]"
    unfolding p2p_rows_append p2p_rows_bad [OF that] ..
  show ?thesis
    using apps p2p apps_row_bad [of pf bad] remitter_row_bad [of pf bad]
      merchant_row_bad [of pf bad] state_row_bad [of pf bad]
      apps_rows_append [of pf before "bad # after"]
      remitter_rows_append [of pf before "bad # after"]
      merchant_rows_append [of pf before "bad # after"]
      state_rows_append [of pf before "bad # after"]
    by (simp del: list_ex_Cons_iff)
qed

lemma bad_row_cells:
  "cell_float float_of_digits (map strip bad_row) (- 2) = Inl ValueError"
  "cell_float float_of_digits (map strip bad_row) 2 = Inl ValueError"
  "cell_float float_of_digits (map strip bad_row) 3 = Inl ValueError"
  "list_ex (\<lambda>i. cell_float float_of_digits (map strip bad_row) i = Inl ValueError)
     [1, 2, 3, 4, 5, 6]"
  by (simp_all add: bad_row_def cell_float_def getitem_def bind_def to_float_def
      float_of_digits_def digit_value_def replace_empty_def strip_def isspace_def
      py_whitespace_def)

lemma apps_table_bad_located:
  "locate apps_match [state_table, apps_table_bad] = Some apps_table_bad"
  "tr_td_text apps_table_bad = [] # take 3 valid_rows @ bad_row # drop 3 valid_rows"
  "length (take 3 valid_rows) < 10"
  "9 - length (take 3 valid_rows) = 6"
  "length bad_row > 4"
  by (simp_all add: state_table_def apps_table_bad_def plain_table_def apps_match_def
      strip_def isspace_def py_whitespace_def valid_rows_def bad_row_def)

theorem bad_row_dropped_witness:
  "cell_float float_of_digits (map strip bad_row) (- 2) = Inl ValueError \<and>
   cell_float float_of_digits (map strip bad_row) 2 = Inl ValueError \<and>
   cell_float float_of_digits (map strip bad_row) 3 = Inl ValueError \<and>
   list_ex (\<lambda>i. cell_float float_of_digits (map strip bad_row) i = Inl ValueError)
     [1, 2, 3, 4, 5, 6] \<and>
   locate apps_match [state_table, apps_table_bad] = Some apps_table_bad \<and>
   tr_td_text apps_table_bad = [] # take 3 valid_rows @ bad_row # drop 3 valid_rows \<and>
   length (take 3 valid_rows) < 10 \<and>
   apps_row float_of_digits bad_row = [] \<and>
   apps_rows float_of_digits (take 3 valid_rows @ bad_row # drop 3 valid_rows)
     = apps_rows float_of_digits (take 3 valid_rows)
         @ apps_rows float_of_digits (drop 3 valid_rows) \<and>
   apps_tables float_of_digits [state_table, apps_table_bad]
     = apps_rows float_of_digits (take 3 valid_rows)
         @ apps_rows float_of_digits (take 6 (drop 3 valid_rows)) \<and>
   remitter_rows float_of_digits (take 3 valid_rows @ bad_row # drop 3 valid_rows)
     = remitter_rows float_of_digits (take 3 valid_rows)
         @ remitter_rows float_of_digits (drop 3 valid_rows) \<and>
   merchant_rows float_of_digits (take 3 valid_rows @ bad_row # drop 3 valid_rows)
     = merchant_rows float_of_digits (take 3 valid_rows)
         @ merchant_rows float_of_digits (drop 3 valid_rows) \<and>
   state_rows float_of_digits (take 3 valid_rows @ bad_row # drop 3 valid_rows)
     = state_rows float_of_digits (take 3 valid_rows)
         @ state_rows float_of_digits (drop 3 valid_rows) \<and>
   p2p_rows float_of_digits (take 3 valid_rows @ bad_row # drop 3 valid_rows)
     = (case p2p_rows float_of_digits (take 3 valid_rows) of
          Some r \<Rightarrow> Some r | None \<Rightarrow> p2p_rows float_of_digits (drop 3 valid_rows))"
  using bad_row_dropped [where pf = float_of_digits and bad = bad_row
      and before = "take 3 valid_rows" and after = "drop 3 valid_rows"
      and soup = "[state_table, apps_table_bad]" and t = apps_table_bad and header = "[]"]
    bad_row_cells apps_table_bad_located
  by metis

section \<open>C9: the limit of ten rows\<close>











section \<open>C2: the UPI Apps table of 12 rows\<close>

text \<open>One pass of the row loop appends nothing or one well-formed record.\<close>

lemma apps_row_cases:
  "apps_row pf row = [] \<or> (\<exists>r. apps_row pf row = [r] \<and> is_app_record r)"
  by (auto simp: apps_row_def apps_record_def bind_def Let_def split: sum.splits)

lemma apps_rows_concat: "apps_rows pf rows = concat (map (apps_row pf) rows)"
  by (induction rows) auto

lemma apps_rows_records: "list_all is_app_record (apps_rows pf rows)"
proof (induction rows)
  case Nil
  then show ?case by simp
next
  case (Cons row rows)
  with apps_row_cases [of pf row] show ?case by auto
qed

lemma apps_rows_count:
  "length (apps_rows pf rows) + length (filter (malformed pf) rows) = length rows"
proof (induction rows)
  case Nil
  then show ?case by simp
next
  case (Cons row rows)
  with apps_row_cases [of pf row] show ?case by (auto simp: malformed_def)
qed

lemma filter_take_last:
  assumes "length xs = Suc n"
  shows "length (filter P xs) = length (filter P (take n xs)) + (if P (xs ! n) then 1 else 0)"
proof -
  from assms have "xs = take n xs @ [xs ! n]"
    by (metis lessI order_refl take_Suc_conv_app_nth take_all)
  then have "filter P xs = filter P (take n xs) @ filter P [xs ! n]"
    by (metis filter_append)
  then show ?thesis by simp
qed

text \<open>
  C2, as stated, fails: for the document whose only table is the UPI Apps table of 12
  rows (the header row and 11 data rows, 2 of them malformed), \<open>extract_apps_data\<close>
  returns 8 records, not 10. The source takes the first ten data rows and then drops
  the malformed ones among them; and 11 data rows with 2 malformed hold 9 well-formed
  rows at most.
\<close>

theorem apps_fixture_counterexample:
  "apps_match apps_table \<and> length (tr_td_text apps_table) = 12 \<and>
   length (filter (malformed float_of_digits) (drop 1 (tr_td_text apps_table))) = 2 \<and>
   extract_apps_data float_of_digits apps_fixture =
     [(''topApps'', JList
        [JObj [(''name'', JStr ''PhonePe''), (''volume'', JFloat 8000), (''value'', JFloat 1200000)],
         JObj [(''name'', JStr ''Google Pay''), (''volume'', JFloat 6000), (''value'', JFloat 800000)],
         JObj [(''name'', JStr ''Paytm''), (''volume'', JFloat 1200), (''value'', JFloat 130000)],
         JObj [(''name'', JStr ''super.money''), (''volume'', JFloat 200), (''value'', JFloat 9000)],
         JObj [(''name'', JStr ''Cred''), (''volume'', JFloat 140), (''value'', JFloat 50000)],
         JObj [(''name'', JStr ''Axis Bank Apps''), (''volume'', JFloat 110), (''value'', JFloat 10000)],
         JObj [(''name'', JStr ''BHIM''), (''volume'', JFloat 100), (''value'', JFloat 14000)],
         JObj [(''name'', JStr ''Amazon Pay''), (''volume'', JFloat 90), (''value'', JFloat 8000)]])]"
  by (simp add: apps_fixture_def apps_table_def plain_table_def extract_apps_data_def
      apps_match_def malformed_def apps_row_def apps_record_def cell_float_def getitem_def
      bind_def to_float_def float_of_digits_def digit_value_def replace_empty_def strip_def
      isspace_def py_whitespace_def Let_def)

text \<open>
  C2, amended: for a document with exactly one table, whose headers include
  \<open>Application Name\<close>, with 12 rows (the header row and 11 data rows, 2 of them
  malformed), \<open>extract_apps_data\<close> returns the well-formed name, volume, value records
  of the first 10 data rows, in the order of the rows: 10 minus the number of
  malformed rows among these ten, which is 8 or 9 records.
\<close>

theorem apps_fixture_records:
  "apps_match t \<and> length (tr_td_text t) = 12 \<and>
   length (filter (malformed pf) (drop 1 (tr_td_text t))) = 2
   \<longrightarrow>
   extract_apps_data pf [t] =
     [(''topApps'', JList (concat (map (apps_row pf) (take 10 (drop 1 (tr_td_text t))))))] \<and>
   list_all is_app_record (apps_tables pf [t]) \<and>
   length (apps_tables pf [t])
     = 10 - length (filter (malformed pf) (take 10 (drop 1 (tr_td_text t)))) \<and>
   8 \<le> length (apps_tables pf [t]) \<and> length (apps_tables pf [t]) \<le> 9"
proof
  assume h: "apps_match t \<and> length (tr_td_text t) = 12 \<and>
    length (filter (malformed pf) (drop 1 (tr_td_text t))) = 2"
  define data where "data = drop 1 (tr_td_text t)"
  have len: "length data = Suc 10" using h by (simp add: data_def)
  have two: "length (filter (malformed pf) data) = 2" using h by (simp add: data_def)
  have tabs: "apps_tables pf [t] = apps_rows pf (take 10 data)"
    using h by (simp add: data_def)
  have count: "length (apps_rows pf (take 10 data))
      + length (filter (malformed pf) (take 10 data)) = 10"
    using apps_rows_count [of pf "take 10 data"] len by simp
  have split: "length (filter (malformed pf) (take 10 data))
      + (if malformed pf (data ! 10) then 1 else 0) = 2"
    using filter_take_last [OF len, of "malformed pf"] two by simp
  have bad: "1 \<le> length (filter (malformed pf) (take 10 data))"
    "length (filter (malformed pf) (take 10 data)) \<le> 2"
    using split by (auto split: if_splits)
  have e: "extract_apps_data pf [t] =
     [(''topApps'', JList (concat (map (apps_row pf) (take 10 data))))]"
    by (simp add: extract_apps_data_def tabs apps_rows_concat del: apps_tables.simps)
  have r: "list_all is_app_record (apps_tables pf [t])"
    unfolding tabs by (rule apps_rows_records)
  have n: "length (apps_tables pf [t]) = 10 - length (filter (malformed pf) (take 10 data))"
    unfolding tabs using count by arith
  have lo: "8 \<le> length (apps_tables pf [t])" and hi: "length (apps_tables pf [t]) \<le> 9"
    unfolding tabs using count bad by arith+
  from e r n lo hi
  show "extract_apps_data pf [t] =
     [(''topApps'', JList (concat (map (apps_row pf) (take 10 (drop 1 (tr_td_text t))))))] \<and>
   list_all is_app_record (apps_tables pf [t]) \<and>
   length (apps_tables pf [t])
     = 10 - length (filter (malformed pf) (take 10 (drop 1 (tr_td_text t)))) \<and>
   8 \<le> length (apps_tables pf [t]) \<and> length (apps_tables pf [t]) \<le> 9"
    unfolding data_def by blast
qed

theorem apps_fixture_records_witness:
  "apps_match apps_table \<and> length (tr_td_text apps_table) = 12 \<and>
   length (filter (malformed float_of_digits) (drop 1 (tr_td_text apps_table))) = 2 \<and>
   extract_apps_data float_of_digits [apps_table] =
     [(''topApps'', JList (concat (map (apps_row float_of_digits)
        (take 10 (drop 1 (tr_td_text apps_table))))))] \<and>
   list_all is_app_record (apps_tables float_of_digits [apps_table]) \<and>
   8 \<le> length (apps_tables float_of_digits [apps_table]) \<and>
   length (apps_tables float_of_digits [apps_table]) \<le> 9"
proof -
  have h: "apps_match apps_table \<and> length (tr_td_text apps_table) = 12 \<and>
     length (filter (malformed float_of_digits) (drop 1 (tr_td_text apps_table))) = 2"
    by (simp add: apps_table_def plain_table_def
      apps_match_def malformed_def apps_row_def apps_record_def cell_float_def getitem_def
      bind_def to_float_def float_of_digits_def digit_value_def replace_empty_def strip_def
      isspace_def py_whitespace_def Let_def)
  with apps_fixture_records [of apps_table float_of_digits] show ?thesis by blast
qed

section \<open>C3: the monthly-totals extractor\<close>

lemma cell_float_nth:
  "0 \<le> i \<Longrightarrow> cell_float pf (map strip row) i =
     (if nat i < length row
      then (case pf (replace_empty CHR '','' (strip (row ! nat i))) of
              None \<Rightarrow> Inl ValueError | Some v \<Rightarrow> Inr v)
      else Inl IndexError)"
  by (auto simp: cell_float_def getitem_def bind_def to_float_def)

lemma p2p_record_six:
  assumes "length row = 6"
  shows "p2p_record pf (map strip row) =
     (if list_all (coerces pf row) [1, 2, 3, 4, 5] then Inl IndexError else Inl ValueError)"
  using assms
  by (auto simp: p2p_record_def cell_float_nth coerces_def bind_def getitem_def Let_def
      split: option.splits)

lemma p2p_record_readable:
  assumes "6 \<le> length row"
  shows "(\<exists>r. p2p_record pf (map strip row) = Inr r) = readable pf row"
  using assms
  by (auto simp: p2p_record_def cell_float_nth coerces_def readable_def bind_def getitem_def
      Let_def split: option.splits)

lemma readable_length: "readable pf row \<Longrightarrow> 6 \<le> length row"
  by (simp add: readable_def)

text \<open>The row loop returns the record of the first readable row.\<close>

lemma p2p_rows_find:
  "p2p_rows pf rows =
     (case find (readable pf) rows of
        None \<Rightarrow> None
      | Some row \<Rightarrow> (case p2p_record pf (map strip row) of Inr r \<Rightarrow> Some r | Inl e \<Rightarrow> None))"
proof (induction rows)
  case Nil
  then show ?case by simp
next
  case (Cons row rows)
  show ?case
  proof (cases "readable pf row")
    case True
    then have "6 \<le> length row" by (rule readable_length)
    with True p2p_record_readable [of row pf] show ?thesis
      by (auto simp: Let_def)
  next
    case False
    show ?thesis
    proof (cases "6 \<le> length row")
      case True
      with False p2p_record_readable [of row pf]
      have "\<exists>e. p2p_record pf (map strip row) = Inl e"
        by (cases "p2p_record pf (map strip row)") auto
      with False True Cons.IH show ?thesis by (auto simp: Let_def)
    next
      case False
      then have "\<not> readable pf row" by (auto dest: readable_length)
      with False Cons.IH show ?thesis by (simp add: Let_def)
    qed
  qed
qed

text \<open>
  C3, as stated, fails in its last part: in the example table the first row with at
  least 7 cells is the row of \<open>Jan-24\<close>, whose second cell is no number; the extractor
  passes it over and returns the record of the row of \<open>Feb-24\<close>.
\<close>

theorem first_row_of_seven_counterexample:
  "find (\<lambda>row. 7 \<le> length row) (tr_td_text p2p_table)
     = Some [''Jan-24'', ''n.a.'', ''18'', ''5'', ''13'', ''7'', ''5''] \<and>
   extract_p2p_p2m_data float_of_digits p2p_fixture =
     [(''month'', JStr ''Feb-24''), (''totalVolume'', JFloat 12), (''totalValue'', JFloat 18),
      (''p2pVolume'', JFloat 5), (''p2pValue'', JFloat 13), (''p2mVolume'', JFloat 7),
      (''p2mValue'', JFloat 5)]"
  by (simp add: p2p_fixture_def p2p_table_def plain_table_def extract_p2p_p2m_data_def
      p2p_match_def p2p_record_def cell_float_def getitem_def bind_def to_float_def
      float_of_digits_def digit_value_def replace_empty_def strip_def isspace_def
      py_whitespace_def Let_def)

text \<open>
  C3, amended: the monthly-totals extractor tries every row with at least 6 cells but
  reads the cell of index 6. A row with exactly 6 cells raises \<open>IndexError\<close> at that
  read when its cells 1 to 5 coerce, and \<open>ValueError\<close> before it otherwise; either is
  caught, the row is skipped and the loop goes on. Any record the extractor returns is
  built from the first row, of the first matching table, that has at least 7 cells and
  whose cells 1 to 6 all coerce. The result is a single record of the seven monthly
  fields, or the empty mapping, never a sequence.
\<close>

theorem monthly_totals_row:
  "(length row = 6 \<longrightarrow>
      p2p_record pf (map strip row) =
        (if list_all (coerces pf row) [1, 2, 3, 4, 5] then Inl IndexError else Inl ValueError) \<and>
      p2p_rows pf (row # rows) = p2p_rows pf rows) \<and>
   (readable pf row \<longrightarrow> 7 \<le> length row \<and> (\<exists>r. p2p_record pf (map strip row) = Inr r)) \<and>
   extract_p2p_p2m_data pf soup =
     (case locate p2p_match soup of
        None \<Rightarrow> []
      | Some t \<Rightarrow>
          (case find (readable pf) (tr_td_text t) of
             None \<Rightarrow> []
           | Some row \<Rightarrow> (case p2p_record pf (map strip row) of Inr r \<Rightarrow> r | Inl e \<Rightarrow> []))) \<and>
   (keys (extract_p2p_p2m_data pf soup) = [] \<or>
    keys (extract_p2p_p2m_data pf soup) = monthly_fields)"
proof -
  have six: "p2p_rows pf (row # rows) = p2p_rows pf rows" if "length row = 6"
    using that by (simp add: p2p_record_six Let_def)
  have seven: "7 \<le> length row \<and> (\<exists>r. p2p_record pf (map strip row) = Inr r)"
    if "readable pf row"
    using that p2p_record_readable [of row pf] by (simp add: readable_def)
  have ex: "extract_p2p_p2m_data pf soup =
     (case locate p2p_match soup of
        None \<Rightarrow> []
      | Some t \<Rightarrow>
          (case find (readable pf) (tr_td_text t) of
             None \<Rightarrow> []
           | Some row \<Rightarrow> (case p2p_record pf (map strip row) of Inr r \<Rightarrow> r | Inl e \<Rightarrow> [])))"
    by (simp add: extract_p2p_p2m_data_def p2p_tables_locate p2p_rows_find
        split: option.splits sum.splits)
  have ks: "keys (extract_p2p_p2m_data pf soup) = [] \<or>
    keys (extract_p2p_p2m_data pf soup) = monthly_fields"
    by (simp add: extract_p2p_keys split: option.splits)
  from six seven ex ks p2p_record_six [of row pf] show ?thesis by blast
qed

lemma p2p_fixture_rows:
  "length [''Dec-23'', ''12'', ''18'', ''5'', ''13'', ''7''] = 6"
  "list_all (coerces float_of_digits [''Dec-23'', ''12'', ''18'', ''5'', ''13'', ''7''])
     [1, 2, 3, 4, 5]"
  "readable float_of_digits [''Feb-24'', ''12'', ''18'', ''5'', ''13'', ''7'', ''5'']"
  by (simp_all add: coerces_def readable_def float_of_digits_def digit_value_def
      replace_empty_def strip_def isspace_def py_whitespace_def)

theorem monthly_totals_row_witness:
  "length [''Dec-23'', ''12'', ''18'', ''5'', ''13'', ''7''] = 6 \<and>
   p2p_record float_of_digits (map strip [''Dec-23'', ''12'', ''18'', ''5'', ''13'', ''7''])
     = Inl IndexError \<and>
   p2p_rows float_of_digits
       ([''Dec-23'', ''12'', ''18'', ''5'', ''13'', ''7''] # drop 2 (tr_td_text p2p_table))
     = p2p_rows float_of_digits (drop 2 (tr_td_text p2p_table)) \<and>
   readable float_of_digits [''Feb-24'', ''12'', ''18'', ''5'', ''13'', ''7'', ''5''] \<and>
   (\<exists>r. p2p_record float_of_digits
          (map strip [''Feb-24'', ''12'', ''18'', ''5'', ''13'', ''7'', ''5'']) = Inr r)"
  using p2p_fixture_rows
    monthly_totals_row [where pf = float_of_digits
      and row = "[''Dec-23'', ''12'', ''18'', ''5'', ''13'', ''7'']"
      and rows = "drop 2 (tr_td_text p2p_table)"]
    monthly_totals_row [where pf = float_of_digits
      and row = "[''Feb-24'', ''12'', ''18'', ''5'', ''13'', ''7'', ''5'']"]
  by presburger

section \<open>The history merge: sorting and keeping the recent periods\<close>

lemma sort_keys_ok:
  "list_all parses xs \<Longrightarrow> sort_keys xs = Inr (map (\<lambda>x. (x, date_of x)) xs)"
  by (induction xs) (auto simp: parses_def date_of_def)

lemma sort_keys_bad: "\<not> list_all parses xs \<Longrightarrow> sort_keys xs = Inl Value_Error"
  by (induction xs) (auto simp: parses_def split: option.splits sum.splits)

lemma insort_key_map:
  "insort_key f (h x) (map h xs) = map h (insort_key (\<lambda>y. f (h y)) x xs)"
  by (induction xs) auto

lemma sort_key_map: "sort_key f (map h xs) = map h (sort_key (\<lambda>y. f (h y)) xs)"
  by (induction xs) (auto simp: insort_key_map)

lemma sorted_reverse_ok:
  "list_all parses xs \<Longrightarrow> sorted_reverse xs = Inr (sort_key (\<lambda>x. - int (date_of x)) xs)"
  by (simp add: sorted_reverse_def sort_keys_ok sort_key_map comp_def)

lemma sorted_reverse_bad: "\<not> list_all parses xs \<Longrightarrow> sorted_reverse xs = Inl Value_Error"
  by (simp add: sorted_reverse_def sort_keys_bad)

lemma get_keys: "get d k \<noteq> None \<longleftrightarrow> k \<in> set (keys d)"
  by (simp add: get_def keys_def map_of_eq_None_iff)

lemma comprehension_ok:
  "distinct ms \<Longrightarrow> set ms \<subseteq> set (keys d) \<Longrightarrow> set ms \<inter> set (keys acc) = {}
   \<Longrightarrow> comprehension d ms acc = Inr (acc @ map (\<lambda>m. (m, the (get d m))) ms)"
proof (induction ms arbitrary: acc)
  case Nil
  then show ?case by simp
next
  case (Cons m ms)
  from Cons.prems have m: "m \<in> set (keys d)" and fresh: "m \<notin> set (keys acc)" by auto
  from m obtain v where v: "get d m = Some v" using get_keys [of d m] by auto
  have "set ms \<inter> set (keys (acc @ [(m, v)])) = {}"
    using Cons.prems by (auto simp: keys_def)
  with Cons.IH [of "acc @ [(m, v)]"] Cons.prems show ?case
    by (simp add: v setitem_fresh [OF fresh])
qed

lemma comprehension_succeeds:
  "set ms \<subseteq> set (keys d) \<Longrightarrow> \<exists>r. comprehension d ms acc = Inr r"
proof (induction ms arbitrary: acc)
  case Nil
  then show ?case by simp
next
  case (Cons m ms)
  then obtain v where "get d m = Some v" using get_keys [of d m] by auto
  with Cons show ?case by simp
qed

lemma keep_recent_ok:
  assumes "distinct (keys st)" "list_all parses (keys st)"
  shows "keep_recent st =
     Inr (map (\<lambda>m. (m, the (get st m)))
            (take 24 (sort_key (\<lambda>x. - int (date_of x)) (keys st))))"
proof -
  let ?srt = "sort_key (\<lambda>x. - int (date_of x)) (keys st)"
  have "distinct (take 24 ?srt)" using assms(1) by simp
  moreover have "set (take 24 ?srt) \<subseteq> set (keys st)"
    using set_take_subset [of 24 ?srt] by simp
  ultimately have "comprehension st (take 24 ?srt) [] =
      Inr ([] @ map (\<lambda>m. (m, the (get st m))) (take 24 ?srt))"
    by (intro comprehension_ok) (simp_all add: keys_def)
  then show ?thesis
    by (simp add: keep_recent_def sorted_reverse_ok assms(2))
qed

lemma keep_recent_succeeds:
  assumes "list_all parses (keys st)"
  shows "\<exists>recent. keep_recent st = Inr recent"
proof -
  let ?srt = "sort_key (\<lambda>x. - int (date_of x)) (keys st)"
  have "set (take 24 ?srt) \<subseteq> set (keys st)"
    using set_take_subset [of 24 ?srt] by simp
  from comprehension_succeeds [OF this] show ?thesis
    by (simp add: keep_recent_def sorted_reverse_ok assms)
qed

lemma keep_recent_bad: "\<not> list_all parses (keys st) \<Longrightarrow> keep_recent st = Inl Value_Error"
  by (simp add: keep_recent_def sorted_reverse_bad)

lemma parses_setitem:
  "list_all parses (keys (setitem k v d)) \<longleftrightarrow> parses k \<and> list_all parses (keys d)"
  by (auto simp: keys_setitem list_all_iff)

text \<open>The key written by \<open>strftime\<close> for the date of the run is read back by \<open>strptime\<close>.\<close>

lemma digit_value_digit_char: "digit_value (digit_char n) = Some (n mod 10)"
proof -
  have "n mod 10 = 0 \<or> n mod 10 = 1 \<or> n mod 10 = 2 \<or> n mod 10 = 3 \<or> n mod 10 = 4 \<or>
    n mod 10 = 5 \<or> n mod 10 = 6 \<or> n mod 10 = 7 \<or> n mod 10 = 8 \<or> n mod 10 = 9"
    by presburger
  then show ?thesis
    by (elim disjE) (simp_all add: digit_value_def digit_char_def)
qed

lemma month_abbr_index:
  assumes "1 \<le> m" "m \<le> 12"
  shows "\<exists>b1 b2 b3. month_abbr ! (m - 1) = [b1, b2, b3] \<and>
     index_of (map lower_char [b1, b2, b3]) (map (map lower_char) month_abbr) = Some (m - 1)"
proof -
  from assms have "m = 1 \<or> m = 2 \<or> m = 3 \<or> m = 4 \<or> m = 5 \<or> m = 6 \<or> m = 7 \<or> m = 8 \<or>
    m = 9 \<or> m = 10 \<or> m = 11 \<or> m = 12"
    by presburger
  then show ?thesis
    by (elim disjE) (simp_all add: month_abbr_def lower_char_def)
qed

lemma strptime_six:
  "strptime [b1, b2, b3, CHR ''-'', y1, y2] =
     (case index_of (map lower_char [b1, b2, b3]) (map (map lower_char) month_abbr) of
        None \<Rightarrow> None
      | Some i \<Rightarrow>
          (case digit_value y1 of
             None \<Rightarrow> None
           | Some d1 \<Rightarrow>
               (case digit_value y2 of
                  None \<Rightarrow> None
                | Some d2 \<Rightarrow>
                    Some (if 10 * d1 + d2 \<le> 68 then 2000 + (10 * d1 + d2)
                          else 1900 + (10 * d1 + d2), Suc i))))"
  unfolding strptime_def Let_def by simp

lemma strptime_strftime:
  assumes "1 \<le> m" "m \<le> 12"
  shows "strptime (strftime (y, m)) =
     Some (if y mod 100 \<le> 68 then 2000 + y mod 100 else 1900 + y mod 100, m)"
proof -
  from month_abbr_index [OF assms] obtain b1 b2 b3
    where b: "month_abbr ! (m - 1) = [b1, b2, b3]"
      and i: "index_of (map lower_char [b1, b2, b3]) (map (map lower_char) month_abbr)
                = Some (m - 1)"
    by blast
  have "y mod 100 div 10 < 10"
    by (rule less_mult_imp_div_less) simp
  then have tens: "y mod 100 div 10 mod 10 = y mod 100 div 10" by simp
  have units: "y mod 10 = y mod 100 mod 10"
    by (simp add: mod_mod_cancel)
  have yy: "10 * (y mod 100 div 10 mod 10) + y mod 10 = y mod 100"
    unfolding tens units by (rule mult_div_mod_eq)
  from assms have m: "Suc (m - 1) = m" by simp
  have "strftime (y, m) = [b1, b2, b3, CHR ''-'', digit_char (y mod 100 div 10), digit_char y]"
    unfolding strftime_def by (simp add: b [simplified])
  then show ?thesis
    by (simp only: strptime_six i digit_value_digit_char option.case yy m)
qed

lemma parses_strftime: "1 \<le> m \<Longrightarrow> m \<le> 12 \<Longrightarrow> parses (strftime (y, m))"
  by (simp add: parses_def strptime_strftime)

text \<open>The example store: 24 distinct keys that parse, and none of January 2025.\<close>

lemma store_fixture_ok:
  "length store_fixture = 24"
  "distinct (keys store_fixture)"
  "list_all parses (keys store_fixture)"
  "parses ''Jan-25''"
  "''Jan-25'' \<notin> set (keys store_fixture)"
  by (simp_all add: store_fixture_def keys_def parses_def strptime_six month_abbr_def
      lower_char_def digit_value_def)


section \<open>C5: a period key that does not parse\<close>

lemma merge_history_bad:
  assumes "\<not> list_all parses (keys store)"
  shows "\<exists>e. merge_history now latest store = Inl e"
proof (cases latest)
  case (JObj d)
  have k: "keep_recent (setitem k latest store) = Inl Value_Error" for k
    using assms by (simp add: keep_recent_bad parses_setitem)
  have s: "sort_keys (keys store) = Inl Value_Error"
    using assms by (rule sort_keys_bad)
  show ?thesis
  proof (cases "get d ''month''")
    case None
    with JObj k show ?thesis by (simp add: merge_history_def)
  next
    case (Some month)
    with JObj k s show ?thesis
      by (cases month) (simp_all add: merge_history_def)
  qed
qed (simp_all add: merge_history_def)

text \<open>
  C5: when the historical store has a period key that \<open>strptime\<close> does not accept,
  the run fails whatever the loaded snapshot is: no store is handed to
  \<open>save_historical_data\<close> and the function returns \<open>False\<close>. For a snapshot with a
  string month, or with none, the failure is the \<open>ValueError\<close> of the sort step; no
  key is skipped.
\<close>

theorem unparseable_key_fails:
  "\<not> list_all parses (keys store) \<longrightarrow>
     process_and_update_dashboard now loaded store = (False, None) \<and>
     (get d ''month'' = None \<longrightarrow> merge_history now (JObj d) store = Inl Value_Error) \<and>
     (get d ''month'' = Some (JStr current_month) \<longrightarrow>
        merge_history now (JObj d) store = Inl Value_Error)"
proof
  assume bad: "\<not> list_all parses (keys store)"
  have k: "keep_recent (setitem k latest store) = Inl Value_Error" for k and latest :: "'a json"
    using bad by (simp add: keep_recent_bad parses_setitem)
  have "process_and_update_dashboard now loaded store = (False, None)"
  proof (cases loaded)
    case (Inl e)
    then show ?thesis by (simp add: process_and_update_dashboard_def)
  next
    case (Inr latest)
    from merge_history_bad [OF bad, of now latest] obtain e
      where "merge_history now latest store = Inl e" ..
    with Inr show ?thesis by (simp add: process_and_update_dashboard_def)
  qed
  with k show "process_and_update_dashboard now loaded store = (False, None) \<and>
     (get d ''month'' = None \<longrightarrow> merge_history now (JObj d) store = Inl Value_Error) \<and>
     (get d ''month'' = Some (JStr current_month) \<longrightarrow>
        merge_history now (JObj d) store = Inl Value_Error)"
    by (simp add: merge_history_def)
qed

theorem unparseable_key_fails_witness:
  "\<not> list_all parses (keys ((''2024-01'', JObj []) # store_fixture)) \<and>
   get ([(''topApps'', JList []), (''month'', JStr ''Jan-25'')] :: int dict) ''month'' = Some (JStr ''Jan-25'') \<and>
   process_and_update_dashboard (2026, 11) (Inr snapshot_fixture)
       ((''2024-01'', JObj []) # store_fixture) = (False, None) \<and>
   merge_history (2026, 11) snapshot_fixture ((''2024-01'', JObj []) # store_fixture)
     = Inl Value_Error"
proof -
  have bad: "\<not> list_all parses (keys ((''2024-01'', JObj []) # store_fixture))"
    by (simp add: keys_def parses_def strptime_def)
  have month: "get ([(''topApps'', JList []), (''month'', JStr ''Jan-25'')] :: int dict) ''month''
      = Some (JStr ''Jan-25'')"
    by (simp add: get_def)
  from bad month
    unparseable_key_fails [where store = "(''2024-01'', JObj []) # store_fixture"
      and now = "(2026, 11)" and loaded = "Inr snapshot_fixture"
      and d = "[(''topApps'', JList []), (''month'', JStr ''Jan-25'')]"
      and current_month = "''Jan-25''"]
  show ?thesis unfolding snapshot_fixture_def by blast
qed

section \<open>C10: a snapshot without a month\<close>

lemma merge_history_Inr:
  assumes "merge_history now latest store = Inr recent"
  shows "\<exists>d k. latest = JObj d \<and>
     (get d ''month'' = Some (JStr k) \<or> (get d ''month'' = None \<and> k = strftime now)) \<and>
     keep_recent (setitem k latest store) = Inr recent"
proof (cases latest)
  case (JObj d)
  show ?thesis
  proof (cases "get d ''month''")
    case None
    with JObj assms show ?thesis by (simp add: merge_history_def)
  next
    case (Some month)
    with JObj assms show ?thesis
      by (cases month) (simp_all add: merge_history_def split: sum.splits)
  qed
qed (use assms in \<open>simp_all add: merge_history_def\<close>)

text \<open>
  C10, as stated, fails: a snapshot without a \<open>month\<close> field does not keep the merger
  from failing. With such a snapshot and a store that holds the key \<open>2024-01\<close>, which
  \<open>strptime\<close> rejects, the run returns \<open>False\<close> and saves nothing.
\<close>

theorem missing_month_counterexample:
  "get ([(''topApps'', JList [])] :: int dict) ''month'' = None \<and>
   process_and_update_dashboard (2026, 11) (Inr (JObj [(''topApps'', JList [])]))
     ([(''2024-01'', JObj [])] :: int dict) = (False, None)"
proof -
  have "\<not> list_all parses (keys ([(''2024-01'', JObj [])] :: int dict))"
    by (simp add: keys_def parses_def strptime_def)
  then have "keep_recent (setitem (strftime (2026, 11)) (JObj [(''topApps'', JList [])])
      ([(''2024-01'', JObj [])] :: int dict)) = Inl Value_Error"
    by (simp only: keep_recent_bad parses_setitem simp_thms)
  then show ?thesis
    by (simp add: process_and_update_dashboard_def merge_history_def get_def)
qed

text \<open>
  C10, amended: when the snapshot has no \<open>month\<close> field, the missing field is itself
  no cause of failure: the merge keys the snapshot under the date of the run, written
  as the abbreviated month name, a hyphen and the two-digit year, a key that
  \<open>strptime\<close> always reads back as that month. The run then succeeds exactly when
  every key already in the store parses, and fails otherwise. Every successful merge
  is the pruning of the store in which one entry, keyed by the snapshot's own month
  or by the date of the run, was inserted or overwritten with the snapshot, all other
  entries unchanged.
\<close>

theorem missing_month_run_date:
  "(get d ''month'' = None \<and> 1 \<le> m \<and> m \<le> 12 \<longrightarrow>
      strftime (y, m)
        = month_abbr ! (m - 1) @ ''-'' @ [digit_char (y mod 100 div 10), digit_char y] \<and>
      strptime (strftime (y, m))
        = Some (if y mod 100 \<le> 68 then 2000 + y mod 100 else 1900 + y mod 100, m) \<and>
      parses (strftime (y, m)) \<and>
      merge_history (y, m) (JObj d) store
        = keep_recent (setitem (strftime (y, m)) (JObj d) store) \<and>
      ((\<exists>recent. process_and_update_dashboard (y, m) (Inr (JObj d)) store
                  = (True, Some recent))
       \<longleftrightarrow> list_all parses (keys store))) \<and>
   (merge_history now latest store = Inr recent \<longrightarrow>
      (\<exists>d k. latest = JObj d \<and>
         (get d ''month'' = Some (JStr k) \<or> (get d ''month'' = None \<and> k = strftime now)) \<and>
         keep_recent (setitem k latest store) = Inr recent)) \<and>
   keys (setitem k v store) = (if k \<in> set (keys store) then keys store else keys store @ [k]) \<and>
   (\<forall>k'. get (setitem k v store) k' = (if k' = k then Some v else get store k'))"
proof -
  have first: "strftime (y, m)
        = month_abbr ! (m - 1) @ ''-'' @ [digit_char (y mod 100 div 10), digit_char y] \<and>
      strptime (strftime (y, m))
        = Some (if y mod 100 \<le> 68 then 2000 + y mod 100 else 1900 + y mod 100, m) \<and>
      parses (strftime (y, m)) \<and>
      merge_history (y, m) (JObj d) store
        = keep_recent (setitem (strftime (y, m)) (JObj d) store) \<and>
      ((\<exists>recent. process_and_update_dashboard (y, m) (Inr (JObj d)) store
                  = (True, Some recent))
       \<longleftrightarrow> list_all parses (keys store))"
    if none: "get d ''month'' = None" and m: "1 \<le> m" "m \<le> 12"
  proof -
    have k: "strftime (y, m)
        = month_abbr ! (m - 1) @ ''-'' @ [digit_char (y mod 100 div 10), digit_char y]"
      by (simp add: strftime_def)
    have q: "strptime (strftime (y, m))
        = Some (if y mod 100 \<le> 68 then 2000 + y mod 100 else 1900 + y mod 100, m)"
      using m by (rule strptime_strftime)
    have p: "parses (strftime (y, m))" using m by (rule parses_strftime)
    have e: "merge_history (y, m) (JObj d) store
        = keep_recent (setitem (strftime (y, m)) (JObj d) store)"
      using none by (simp add: merge_history_def)
    have "(\<exists>recent. process_and_update_dashboard (y, m) (Inr (JObj d)) store
                  = (True, Some recent)) \<longleftrightarrow> list_all parses (keys store)"
    proof (cases "list_all parses (keys store)")
      case True
      then have "list_all parses (keys (setitem (strftime (y, m)) (JObj d) store))"
        using p by (simp add: parses_setitem)
      from keep_recent_succeeds [OF this] True show ?thesis
        by (auto simp: process_and_update_dashboard_def e)
    next
      case False
      then have "keep_recent (setitem (strftime (y, m)) (JObj d) store) = Inl Value_Error"
        by (simp add: keep_recent_bad parses_setitem)
      with False show ?thesis
        by (simp add: process_and_update_dashboard_def e)
    qed
    with k q p e show ?thesis by blast
  qed
  from first merge_history_Inr [of now latest store recent] keys_setitem [of k v store]
    get_setitem [of k v store]
  show ?thesis by blast
qed

theorem missing_month_run_date_witness:
  "get ([(''topApps'', JList [])] :: int dict) ''month'' = None \<and> (1::nat) \<le> 11 \<and>
   (11::nat) \<le> 12 \<and> list_all parses (keys store_fixture) \<and>
   strftime (2026, 11) = ''Nov-26'' \<and> strptime (strftime (2026, 11)) = Some (2026, 11) \<and>
   parses (strftime (2026, 11)) \<and>
   (\<exists>recent.
      process_and_update_dashboard (2026, 11) (Inr (JObj [(''topApps'', JList [])])) store_fixture
        = (True, Some recent) \<and>
      merge_history (2026, 11) (JObj [(''topApps'', JList [])]) store_fixture = Inr recent \<and>
      keep_recent (setitem (strftime (2026, 11)) (JObj [(''topApps'', JList [])]) store_fixture)
        = Inr recent \<and>
      (\<exists>d k. (JObj [(''topApps'', JList [])] :: int json) = JObj d \<and>
         (get d ''month'' = Some (JStr k) \<or> (get d ''month'' = None \<and> k = strftime (2026, 11))) \<and>
         keep_recent (setitem k (JObj [(''topApps'', JList [])]) store_fixture) = Inr recent))"
proof -
  have none: "get ([(''topApps'', JList [])] :: int dict) ''month'' = None"
    by (simp add: get_def)
  have m: "(1::nat) \<le> 11" "(11::nat) \<le> 12" by simp_all
  note t = missing_month_run_date [where d = "[(''topApps'', JList [])] :: int dict"
      and m = 11 and y = 2026 and store = store_fixture, THEN conjunct1, THEN mp,
      OF conjI [OF none conjI [OF m]]]
  from t store_fixture_ok(3) obtain recent
    where r: "process_and_update_dashboard (2026, 11) (Inr (JObj [(''topApps'', JList [])]))
        store_fixture = (True, Some recent)"
    by blast
  then have mh: "merge_history (2026, 11) (JObj [(''topApps'', JList [])]) store_fixture
      = Inr recent"
    by (simp add: process_and_update_dashboard_def split: sum.splits)
  note u = missing_month_run_date [where now = "(2026, 11)"
      and latest = "JObj [(''topApps'', JList [])]" and store = store_fixture
      and recent = recent, THEN conjunct2, THEN conjunct1, THEN mp, OF mh]
  have key: "strftime (2026, 11) = ''Nov-26''"
    by (simp add: strftime_def month_abbr_def digit_char_def)
  from t have "strptime (strftime (2026, 11))
      = Some (if (2026::nat) mod 100 \<le> 68 then 2000 + 2026 mod 100 else 1900 + 2026 mod 100, 11)"
    by blast
  then have rt: "strptime (strftime (2026, 11)) = Some (2026, 11)" by simp
  from t have p: "parses (strftime (2026, 11))"
    and e: "merge_history (2026, 11) (JObj [(''topApps'', JList [])]) store_fixture
        = keep_recent (setitem (strftime (2026, 11)) (JObj [(''topApps'', JList [])])
            store_fixture)"
    by blast+
  from e mh have kr: "keep_recent (setitem (strftime (2026, 11))
      (JObj [(''topApps'', JList [])]) store_fixture) = Inr recent"
    by simp
  show ?thesis
  proof (intro conjI)
    show "\<exists>recent.
      process_and_update_dashboard (2026, 11) (Inr (JObj [(''topApps'', JList [])])) store_fixture
        = (True, Some recent) \<and>
      merge_history (2026, 11) (JObj [(''topApps'', JList [])]) store_fixture = Inr recent \<and>
      keep_recent (setitem (strftime (2026, 11)) (JObj [(''topApps'', JList [])]) store_fixture)
        = Inr recent \<and>
      (\<exists>d k. (JObj [(''topApps'', JList [])] :: int json) = JObj d \<and>
         (get d ''month'' = Some (JStr k) \<or> (get d ''month'' = None \<and> k = strftime (2026, 11))) \<and>
         keep_recent (setitem k (JObj [(''topApps'', JList [])]) store_fixture) = Inr recent)"
    proof (rule exI [of _ recent], intro conjI)
      show "process_and_update_dashboard (2026, 11) (Inr (JObj [(''topApps'', JList [])]))
          store_fixture = (True, Some recent)" by (rule r)
      show "merge_history (2026, 11) (JObj [(''topApps'', JList [])]) store_fixture = Inr recent"
        by (rule mh)
      show "keep_recent (setitem (strftime (2026, 11)) (JObj [(''topApps'', JList [])])
          store_fixture) = Inr recent" by (rule kr)
      show "\<exists>d k. (JObj [(''topApps'', JList [])] :: int json) = JObj d \<and>
         (get d ''month'' = Some (JStr k) \<or> (get d ''month'' = None \<and> k = strftime (2026, 11))) \<and>
         keep_recent (setitem k (JObj [(''topApps'', JList [])]) store_fixture) = Inr recent"
        by (rule u)
    qed
  qed (rule none m store_fixture_ok(3) key rt p)+
qed

section \<open>C4: the 25th period\<close>

lemma get_map_keys:
  "x \<in> set ms \<Longrightarrow> get (map (\<lambda>m. (m, g m)) ms) x = Some (g x)"
  by (induction ms) (auto simp: get_def)

lemma keys_map_keys: "keys (map (\<lambda>m. (m, g m)) ms) = ms"
  by (simp add: keys_def comp_def)

text \<open>
  In a list sorted by a key, the last element has the greatest key, and the elements
  before it are the others.
\<close>

lemma sorted_last_greatest:
  assumes "sorted (map f xs)" "length xs = Suc n" "distinct xs"
  shows "last xs \<in> set xs" and "\<forall>x\<in>set xs. f x \<le> f (last xs)"
    and "set (take n xs) = set xs - {last xs}" and "sorted (map f (take n xs))"
proof -
  from assms(2) obtain ys z where xs: "xs = ys @ [z]"
    by (cases xs rule: rev_cases) auto
  with assms(2) have n: "length ys = n" by simp
  have t: "take n xs = ys" "last xs = z" using n by (simp_all add: xs)
  from assms(1) have s: "sorted (map f ys)" "\<forall>x\<in>set ys. f x \<le> f z"
    by (auto simp: xs sorted_append)
  from assms(3) have d: "z \<notin> set ys" by (simp add: xs)
  show "last xs \<in> set xs" unfolding t by (simp add: xs)
  show "\<forall>x\<in>set xs. f x \<le> f (last xs)" unfolding t using s by (auto simp: xs)
  show "set (take n xs) = set xs - {last xs}" unfolding t using d by (auto simp: xs)
  show "sorted (map f (take n xs))" unfolding t by (rule s)
qed

text \<open>
  C4: for a store of 24 entries whose keys are distinct and parse, and a snapshot
  whose period key (its month, or the date of the run when it has none) parses and is
  not in the store, the run succeeds and saves a store of exactly 24 entries with
  distinct keys: the 25 keys without one that is chronologically oldest among them
  (a key whose date is at most the date of every other), in descending chronological
  order. Every kept entry of the old store keeps its value and the new key, when
  kept, holds the snapshot.
\<close>

theorem twenty_fifth_period:
  "length store = 24 \<and> distinct (keys store) \<and> list_all parses (keys store) \<and>
   parses k \<and> k \<notin> set (keys store) \<and>
   (get d ''month'' = Some (JStr k) \<or> (get d ''month'' = None \<and> strftime now = k))
   \<longrightarrow>
   (\<exists>recent oldest.
      process_and_update_dashboard now (Inr (JObj d)) store = (True, Some recent) \<and>
      length recent = 24 \<and> distinct (keys recent) \<and>
      oldest \<in> set (keys store @ [k]) \<and>
      (\<forall>x\<in>set (keys store @ [k]). date_of oldest \<le> date_of x) \<and>
      set (keys recent) = set (keys store @ [k]) - {oldest} \<and>
      (\<forall>x\<in>set (keys recent).
         get recent x = (if x = k then Some (JObj d) else get store x)) \<and>
      sorted (map (\<lambda>x. - int (date_of x)) (keys recent)))"
proof
  assume h: "length store = 24 \<and> distinct (keys store) \<and> list_all parses (keys store) \<and>
   parses k \<and> k \<notin> set (keys store) \<and>
   (get d ''month'' = Some (JStr k) \<or> (get d ''month'' = None \<and> strftime now = k))"
  define st where "st = store @ [(k, JObj d)]"
  define f where "f = (\<lambda>x. - int (date_of x))"
  define srt where "srt = sort_key f (keys st)"
  define recent where "recent = map (\<lambda>m. (m, the (get st m))) (take 24 srt)"
  define oldest where "oldest = last srt"
  from h have fresh: "k \<notin> set (keys store)" by simp
  have set_st: "setitem k (JObj d) store = st"
    unfolding st_def by (rule setitem_fresh [OF fresh])
  have keys_st: "keys st = keys store @ [k]" by (simp add: st_def keys_def)
  have dist: "distinct (keys st)" using h by (simp add: keys_st)
  have pars: "list_all parses (keys st)" using h by (simp add: keys_st)
  have "length (keys st) = Suc 24" using h by (simp add: st_def keys_def)
  then have len: "length srt = Suc 24" by (simp add: srt_def)
  have set_srt: "set srt = set (keys st)" by (simp add: srt_def)
  have dist_srt: "distinct srt" using dist by (simp add: srt_def)
  have sorted_srt: "sorted (map f srt)" unfolding srt_def by (rule sorted_sort_key)
  from h have month: "get d ''month'' = Some (JStr k) \<or>
      (get d ''month'' = None \<and> strftime now = k)"
    by simp
  then have "merge_history now (JObj d) store = keep_recent (setitem k (JObj d) store)"
    by (auto simp: merge_history_def)
  then have merge: "merge_history now (JObj d) store = keep_recent st"
    by (simp only: set_st)
  have keep: "keep_recent st = Inr recent"
    unfolding recent_def srt_def f_def by (rule keep_recent_ok [OF dist pars])
  have run: "process_and_update_dashboard now (Inr (JObj d)) store = (True, Some recent)"
    by (simp add: process_and_update_dashboard_def merge keep)
  have keys_recent: "keys recent = take 24 srt"
    unfolding recent_def by (rule keys_map_keys)
  note facts = sorted_last_greatest [OF sorted_srt len dist_srt, folded oldest_def]
  have l: "length recent = 24" using len by (simp add: recent_def)
  have d1: "distinct (keys recent)" unfolding keys_recent using dist_srt by simp
  have o1: "oldest \<in> set (keys store @ [k])"
    using facts(1) by (simp only: set_srt keys_st)
  have o2: "\<forall>x\<in>set (keys store @ [k]). date_of oldest \<le> date_of x"
    using facts(2) by (simp add: set_srt keys_st f_def)
  have s: "set (keys recent) = set (keys store @ [k]) - {oldest}"
    unfolding keys_recent using facts(3) by (simp only: set_srt keys_st)
  have g: "\<forall>x\<in>set (keys recent).
         get recent x = (if x = k then Some (JObj d) else get store x)"
  proof
    fix x assume x: "x \<in> set (keys recent)"
    then have xin: "x \<in> set (take 24 srt)" by (simp add: keys_recent)
    then have "x \<in> set (keys st)" using set_srt by (auto dest: in_set_takeD)
    then have xk: "x = k \<or> x \<in> set (keys store)" by (auto simp: keys_st)
    have gr: "get recent x = Some (the (get st x))"
      unfolding recent_def by (rule get_map_keys [OF xin])
    have gs: "get st x = (case get store x of Some v \<Rightarrow> Some v | None \<Rightarrow> get [(k, JObj d)] x)"
      unfolding st_def by (rule get_append)
    show "get recent x = (if x = k then Some (JObj d) else get store x)"
    proof (cases "x = k")
      case True
      with fresh have "get store x = None" using get_keys [of store x] by auto
      with True gr gs show ?thesis by (simp add: get_def)
    next
      case False
      with xk have "x \<in> set (keys store)" by simp
      then obtain v where "get store x = Some v" using get_keys [of store x] by auto
      with False gr gs show ?thesis by simp
    qed
  qed
  have so: "sorted (map (\<lambda>x. - int (date_of x)) (keys recent))"
    unfolding keys_recent using facts(4) by (simp only: f_def)
  from run l d1 o1 o2 s g so
  show "\<exists>recent oldest.
      process_and_update_dashboard now (Inr (JObj d)) store = (True, Some recent) \<and>
      length recent = 24 \<and> distinct (keys recent) \<and>
      oldest \<in> set (keys store @ [k]) \<and>
      (\<forall>x\<in>set (keys store @ [k]). date_of oldest \<le> date_of x) \<and>
      set (keys recent) = set (keys store @ [k]) - {oldest} \<and>
      (\<forall>x\<in>set (keys recent).
         get recent x = (if x = k then Some (JObj d) else get store x)) \<and>
      sorted (map (\<lambda>x. - int (date_of x)) (keys recent))"
    by (intro exI [of _ recent] exI [of _ oldest] conjI)
qed

theorem twenty_fifth_period_witness:
  "(length store_fixture = 24 \<and> distinct (keys store_fixture) \<and>
    list_all parses (keys store_fixture) \<and> parses ''Jan-25'' \<and>
    ''Jan-25'' \<notin> set (keys store_fixture) \<and>
    (get ([(''topApps'', JList []), (''month'', JStr ''Jan-25'')] :: int dict) ''month''
       = Some (JStr ''Jan-25'') \<or>
     (get ([(''topApps'', JList []), (''month'', JStr ''Jan-25'')] :: int dict) ''month'' = None \<and>
      strftime (2026, 11) = ''Jan-25''))) \<and>
   (\<exists>recent oldest.
      process_and_update_dashboard (2026, 11)
          (Inr (JObj [(''topApps'', JList []), (''month'', JStr ''Jan-25'')])) store_fixture
        = (True, Some recent) \<and>
      length recent = 24 \<and> distinct (keys recent) \<and>
      oldest \<in> set (keys store_fixture @ [''Jan-25'']) \<and>
      (\<forall>x\<in>set (keys store_fixture @ [''Jan-25'']). date_of oldest \<le> date_of x) \<and>
      set (keys recent) = set (keys store_fixture @ [''Jan-25'']) - {oldest} \<and>
      (\<forall>x\<in>set (keys recent).
         get recent x =
           (if x = ''Jan-25''
            then Some (JObj [(''topApps'', JList []), (''month'', JStr ''Jan-25'')])
            else get store_fixture x)) \<and>
      sorted (map (\<lambda>x. - int (date_of x)) (keys recent)))"
proof -
  have month: "get ([(''topApps'', JList []), (''month'', JStr ''Jan-25'')] :: int dict) ''month''
       = Some (JStr ''Jan-25'')"
    by (simp add: get_def)
  have h: "length store_fixture = 24 \<and> distinct (keys store_fixture) \<and>
    list_all parses (keys store_fixture) \<and> parses ''Jan-25'' \<and>
    ''Jan-25'' \<notin> set (keys store_fixture) \<and>
    (get ([(''topApps'', JList []), (''month'', JStr ''Jan-25'')] :: int dict) ''month''
       = Some (JStr ''Jan-25'') \<or>
     (get ([(''topApps'', JList []), (''month'', JStr ''Jan-25'')] :: int dict) ''month'' = None \<and>
      strftime (2026, 11) = ''Jan-25''))"
    by (intro conjI disjI1) (rule store_fixture_ok month)+
  note c = twenty_fifth_period [where store = store_fixture and k = "''Jan-25''"
      and d = "[(''topApps'', JList []), (''month'', JStr ''Jan-25'')]" and now = "(2026, 11)",
      THEN mp, OF h]
  from h c show ?thesis by (rule conjI)
qed

end
